theory Spec2Isabelle
  imports Complex_Main "HOL-Library.Char_ord" "HOL-Library.List_Lexorder"
begin

section \<open>The flu-shot-learning notebook as a sequence of statements\<close>

text \<open>
  The repository is one notebook, \<^verbatim>\<open>notebooks/0.0-flu-shot-learning-tutorial.ipynb\<close>.
  Its code cells are a straight line of assignments and calls into pandas, numpy and
  scikit-learn. The embedding keeps that shape: the notebook's variables are the fields
  of a record, every statement that assigns or may raise is a function from the record
  to an error or the updated record, and the notebook is the list of these statements,
  run in order until one raises.

  The library operations the statements call are written out here with the meaning their
  documentation gives them. Numbers are exact reals (\<^typ>\<open>real\<close>): float64 rounding is
  not modelled. A missing value (pandas NaN) is \<^term>\<open>None\<close>.

  Cells that only display something (\<^verbatim>\<open>head\<close>, \<^verbatim>\<open>shape\<close>, the bar charts, the ROC
  plots, \<^verbatim>\<open>roc_auc_score\<close>) assign no variable that a later statement reads and are left
  out of the statement list. A library exception raised inside one of them would stop the
  real run earlier than the model does, and so would a library exception the model leaves
  out (a missing output directory at \<^verbatim>\<open>to_csv\<close>, a label column that holds no class
  labels); so the runs of the model that reach the end include every real run that
  reaches the end.
\<close>

subsection \<open>Errors\<close>

datatype error =
    AssertionError
  | FileNotFoundError
  | ValueError
  | IndexError
  | KeyError
  | NameError
  | TypeError
  | NotFittedError

definition and_then :: "error + 'a \<Rightarrow> ('a \<Rightarrow> error + 'b) \<Rightarrow> error + 'b" where
  "and_then r f = (case r of Inl e \<Rightarrow> Inl e | Inr x \<Rightarrow> f x)"

text \<open>Reading a notebook variable that no statement has assigned yet raises NameError.\<close>

definition var :: "'a option \<Rightarrow> error + 'a" where
  "var v = (case v of None \<Rightarrow> Inl NameError | Some x \<Rightarrow> Inr x)"

subsection \<open>Data frames\<close>

text \<open>
  A column holds numbers (every dtype but \<^verbatim>\<open>object\<close>) or strings (dtype \<^verbatim>\<open>object\<close>).
  A data frame read with \<^verbatim>\<open>index_col="respondent_id"\<close> has the respondent identifiers as
  its index and the other columns in file order.
\<close>

datatype column = Num "real option list" | Obj "string option list"

fun is_object :: "column \<Rightarrow> bool" where
  "is_object (Num xs) = False"
| "is_object (Obj xs) = True"

fun col_len :: "column \<Rightarrow> nat" where
  "col_len (Num xs) = length xs"
| "col_len (Obj xs) = length xs"

record table =
  index_name :: string
  index :: "int list"
  columns :: "(string \<times> column) list"

definition column_names :: "table \<Rightarrow> string list" where
  "column_names t = map fst (columns t)"

text \<open>
  \<^verbatim>\<open>pd.read_csv(path, index_col=name)\<close>. The file system maps a path to the table the
  file holds; the parse itself is not modelled. A file that is not there raises
  FileNotFoundError, a file without the index column raises ValueError. What pandas
  returns is a frame: every column is as long as the index, and the column names are
  distinct (\<^verbatim>\<open>read_csv\<close> renames a repeated header). A file content that is no frame
  stands for a file pandas cannot parse, and raises ValueError as well.
\<close>

definition well_formed :: "table \<Rightarrow> bool" where
  "well_formed t \<longleftrightarrow>
     list_all (\<lambda>c. col_len (snd c) = length (index t)) (columns t) \<and>
     distinct (column_names t)"

definition read_csv :: "(string \<rightharpoonup> table) \<Rightarrow> string \<Rightarrow> string \<Rightarrow> error + table" where
  "read_csv fs path index_col =
     (case fs path of
        None \<Rightarrow> Inl FileNotFoundError
      | Some t \<Rightarrow>
          if index_name t = index_col \<and> well_formed t then Inr t else Inl ValueError)"

text \<open>
  \<^verbatim>\<open>np.testing.assert_array_equal(a, b)\<close> on two one-dimensional arrays: it raises
  AssertionError when the shapes or any pair of elements differ and returns nothing
  otherwise.
\<close>

definition assert_array_equal :: "int list \<Rightarrow> int list \<Rightarrow> error + unit" where
  "assert_array_equal a b = (if a = b then Inr () else Inl AssertionError)"

text \<open>
  \<^verbatim>\<open>df[name] = values\<close> with a one-dimensional array: ValueError when the length of the
  array is not the length of the index; otherwise the column of that name takes the new
  values in place, and a name the frame does not have yet is appended as a new last
  column. The index is not touched.
\<close>

definition setitem :: "table \<Rightarrow> string \<Rightarrow> real list \<Rightarrow> error + table" where
  "setitem df name vals =
     (if length vals \<noteq> length (index df) then Inl ValueError
      else if name \<in> set (column_names df)
      then Inr (df\<lparr>columns :=
                  map (\<lambda>(n, c). if n = name then (n, Num (map Some vals)) else (n, c))
                    (columns df)\<rparr>)
      else Inr (df\<lparr>columns := columns df @ [(name, Num (map Some vals))]\<rparr>))"

text \<open>\<^verbatim>\<open>df.to_csv(path, index=True)\<close>: the file at the path now holds the frame.\<close>

definition to_csv :: "(string \<rightharpoonup> table) \<Rightarrow> string \<Rightarrow> table \<Rightarrow> (string \<rightharpoonup> table)" where
  "to_csv fs path df = fs(path \<mapsto> df)"

text \<open>
  Positional row selection (\<^verbatim>\<open>iloc\<close>, which \<^verbatim>\<open>train_test_split\<close> uses through
  \<^verbatim>\<open>_safe_indexing\<close>): a new frame with the chosen rows in the chosen order; a position
  outside the frame raises IndexError.
\<close>

fun take_cells :: "nat list \<Rightarrow> column \<Rightarrow> column" where
  "take_cells ps (Num xs) = Num (map (\<lambda>p. xs ! p) ps)"
| "take_cells ps (Obj xs) = Obj (map (\<lambda>p. xs ! p) ps)"

definition iloc :: "table \<Rightarrow> nat list \<Rightarrow> error + table" where
  "iloc df ps =
     (if (\<exists>p \<in> set ps. length (index df) \<le> p) \<or>
         (\<exists>c \<in> set (columns df). col_len (snd c) \<noteq> length (index df))
      then Inl IndexError
      else Inr (df\<lparr>index := map (\<lambda>p. index df ! p) ps,
                   columns := map (\<lambda>(n, c). (n, take_cells ps c)) (columns df)\<rparr>))"

text \<open>
  \<^verbatim>\<open>left.join(right)\<close>: a left join on the index. Column names that occur on both sides
  raise ValueError. Every left row is paired with the right rows of the same key, in the
  right frame's order; a left row without a partner is kept once and gets missing values
  in the right columns.
\<close>

definition positions_of :: "int \<Rightarrow> int list \<Rightarrow> nat list" where
  "positions_of k ks = filter (\<lambda>j. ks ! j = k) [0..<length ks]"

definition join_pairs :: "int list \<Rightarrow> int list \<Rightarrow> (nat \<times> nat option) list" where
  "join_pairs lks rks =
     concat (map (\<lambda>i. case positions_of (lks ! i) rks of
                         [] \<Rightarrow> [(i, None)]
                       | js \<Rightarrow> map (\<lambda>j. (i, Some j)) js)
                 [0..<length lks])"

fun take_cells_opt :: "nat option list \<Rightarrow> column \<Rightarrow> column" where
  "take_cells_opt ps (Num xs) =
     Num (map (\<lambda>p. case p of None \<Rightarrow> None | Some j \<Rightarrow> xs ! j) ps)"
| "take_cells_opt ps (Obj xs) =
     Obj (map (\<lambda>p. case p of None \<Rightarrow> None | Some j \<Rightarrow> xs ! j) ps)"

definition join :: "table \<Rightarrow> table \<Rightarrow> error + table" where
  "join l r =
     (if set (column_names l) \<inter> set (column_names r) \<noteq> {} then Inl ValueError
      else if (\<exists>c \<in> set (columns l). col_len (snd c) \<noteq> length (index l)) \<or>
              (\<exists>c \<in> set (columns r). col_len (snd c) \<noteq> length (index r))
      then Inl ValueError
      else let ps = join_pairs (index l) (index r) in
        Inr (l\<lparr>index := map (\<lambda>(i, j). index l ! i) ps,
               columns :=
                 map (\<lambda>(n, c). (n, take_cells (map fst ps) c)) (columns l) @
                 map (\<lambda>(n, c). (n, take_cells_opt (map snd ps) c)) (columns r)\<rparr>))"

subsection \<open>Random state\<close>

text \<open>
  scikit-learn's \<^verbatim>\<open>check_random_state\<close>: an integer seed makes a fresh generator that the
  seed alone determines; \<^verbatim>\<open>None\<close> means numpy's process-wide generator, which starts from
  operating-system entropy and so differs from run to run.
\<close>

datatype rng = RandomState nat | Entropy nat

definition check_random_state :: "nat option \<Rightarrow> rng \<Rightarrow> rng" where
  "check_random_state seed np_global =
     (case seed of None \<Rightarrow> np_global | Some n \<Rightarrow> RandomState n)"

definition RANDOM_SEED :: nat where
  "RANDOM_SEED = 6"

subsection \<open>The numerical routines of scikit-learn that stay abstract\<close>

text \<open>
  Three routines are taken as they come, as arguments of the model: the index shuffling of
  \<^verbatim>\<open>StratifiedShuffleSplit\<close> (from a generator, the stratification labels and the two
  sizes to the train and test positions, or to nothing where it raises its ValueError,
  as for a class with a single member); the numerical minimisation
  inside \<^verbatim>\<open>LogisticRegression.fit\<close> (from the estimator's parameters, a generator when the
  solver is a stochastic one, the training matrix, the class index of every row and the
  number of classes to the coefficients and intercept of row \<open>k\<close> of \<^verbatim>\<open>coef_\<close>); and the
  conversion of a string to a float, which numpy applies to every string cell when
  scikit-learn's \<^verbatim>\<open>check_array\<close> turns columns of dtype \<^verbatim>\<open>object\<close> into a float array
  (Python's \<^verbatim>\<open>float\<close>: from the string to the number it denotes, to a missing value for
  \<^verbatim>\<open>nan\<close>, or to nothing for a string that \<^verbatim>\<open>float\<close> rejects or that denotes an infinity,
  both of which end in a ValueError).
  Everything proved below holds for every choice of the three.
\<close>

record logistic_regression =
  penalty :: string
  C :: real
  solver :: string
  random_state :: "nat option"

record sklearn =
  stratified_shuffle_split ::
    "rng \<Rightarrow> column list \<Rightarrow> nat \<Rightarrow> nat \<Rightarrow> (nat list \<times> nat list) option"
  minimize ::
    "logistic_regression \<Rightarrow> rng option \<Rightarrow> real list list \<Rightarrow> nat list \<Rightarrow> nat \<Rightarrow>
       nat \<Rightarrow> real list \<times> real"
  astype_float :: "string \<Rightarrow> real option option"

subsection \<open>train_test_split\<close>

text \<open>
  \<^verbatim>\<open>train_test_split(X, y, test_size=t, shuffle=True, stratify=y, random_state=seed)\<close>:
  the two frames must have the same number of rows; the test size is the ceiling of
  \<open>t\<close> times the number of rows and the training set takes the rest, which must not be
  empty; the positions come from the stratified shuffle, and each frame is cut by position.
\<close>

definition train_test_split ::
  "sklearn \<Rightarrow> rng \<Rightarrow> table \<Rightarrow> table \<Rightarrow> real \<Rightarrow> nat option \<Rightarrow>
     error + (table \<times> table \<times> table \<times> table)" where
  "train_test_split L np_global X y test_size seed =
     (let n = length (index X);
          n_test = nat \<lceil>test_size * real n\<rceil>;
          n_train = n - n_test
      in if length (index y) \<noteq> n \<or> n_train = 0 then Inl ValueError
         else
           case stratified_shuffle_split L (check_random_state seed np_global)
                  (map snd (columns y)) n_train n_test of
             None \<Rightarrow> Inl ValueError
           | Some (train, test) \<Rightarrow>
               and_then (iloc X train) (\<lambda>X_tr.
               and_then (iloc X test) (\<lambda>X_te.
               and_then (iloc y train) (\<lambda>y_tr.
               and_then (iloc y test) (\<lambda>y_te.
                 Inr (X_tr, X_te, y_tr, y_te))))))"

subsection \<open>Preprocessing: ColumnTransformer, StandardScaler, SimpleImputer\<close>

text \<open>
  \<^verbatim>\<open>features_df.columns[features_df.dtypes != "object"].values\<close>: the names of the
  columns whose dtype is not \<^verbatim>\<open>object\<close>, in frame order.
\<close>

definition numeric_cols_of :: "table \<Rightarrow> string list" where
  "numeric_cols_of df = map fst (filter (\<lambda>c. \<not> is_object (snd c)) (columns df))"

text \<open>
  \<^verbatim>\<open>ColumnTransformer([("numeric", steps, numeric_cols)], remainder="drop")\<close> hands the
  steps the columns of the given names, looked up by name in the frame it is applied to,
  and nothing else; the dropped columns of that frame play no part. A name the frame
  lacks raises ValueError. The scaler takes the selected columns as a float array: a
  numeric column as it is, a column of dtype \<^verbatim>\<open>object\<close> with every string converted to a
  float and every missing cell still missing; one string that is no float raises
  ValueError.
\<close>

fun to_float_column :: "sklearn \<Rightarrow> column \<Rightarrow> error + real option list" where
  "to_float_column L (Num xs) = Inr xs"
| "to_float_column L (Obj xs) =
     (case those (map (\<lambda>x. case x of None \<Rightarrow> Some None | Some str \<Rightarrow> astype_float L str) xs) of
        None \<Rightarrow> Inl ValueError
      | Some ys \<Rightarrow> Inr ys)"

fun select_columns :: "sklearn \<Rightarrow> string list \<Rightarrow> table \<Rightarrow> error + real option list list"
  where
  "select_columns L [] df = Inr []"
| "select_columns L (n # ns) df =
     (case map_of (columns df) n of
        None \<Rightarrow> Inl ValueError
      | Some c \<Rightarrow>
          and_then (to_float_column L c) (\<lambda>xs.
          and_then (select_columns L ns df) (\<lambda>cs. Inr (xs # cs))))"

definition observed :: "real option list \<Rightarrow> real list" where
  "observed xs = List.map_filter (\<lambda>x. x) xs"

definition nanmean :: "real option list \<Rightarrow> real option" where
  "nanmean xs =
     (let os = observed xs
      in if os = [] then None else Some (sum_list os / real (length os)))"

definition nanvar :: "real option list \<Rightarrow> real option" where
  "nanvar xs =
     (let os = observed xs
      in case nanmean xs of
           None \<Rightarrow> None
         | Some m \<Rightarrow> Some (sum_list (map (\<lambda>x. (x - m)\<^sup>2) os) / real (length os)))"

text \<open>
  \<^verbatim>\<open>np.median\<close> of a non-empty array: the middle element of the sorted values, or the
  mean of the two middle elements when their number is even. Of no values there is no median.
\<close>

definition median :: "real list \<Rightarrow> real option" where
  "median xs =
     (let s = sort xs; n = length s
      in if n = 0 then None
         else if odd n then Some (s ! (n div 2))
         else Some ((s ! (n div 2 - 1) + s ! (n div 2)) / 2))"

text \<open>
  \<^verbatim>\<open>StandardScaler()\<close> on one column: \<^verbatim>\<open>mean_\<close> and \<^verbatim>\<open>var_\<close> are taken over the observed
  values (missing values are skipped in \<^verbatim>\<open>fit\<close> and kept in \<^verbatim>\<open>transform\<close>);
  \<^verbatim>\<open>scale_\<close> is the square root of the variance, with 1 in place of 0. A column with no
  observed value has no mean and no scale, and transforms to missing values only.
\<close>

record scaler_column =
  mean_of :: "real option"
  scale_of :: "real option"

definition scaler_fit :: "real option list \<Rightarrow> scaler_column" where
  "scaler_fit xs =
     \<lparr>mean_of = nanmean xs,
      scale_of = (case nanvar xs of
                    None \<Rightarrow> None
                  | Some v \<Rightarrow> Some (if v = 0 then 1 else sqrt v))\<rparr>"

definition scaler_transform :: "scaler_column \<Rightarrow> real option list \<Rightarrow> real option list" where
  "scaler_transform sc xs =
     (case (mean_of sc, scale_of sc) of
        (Some m, Some s) \<Rightarrow> map (map_option (\<lambda>x. (x - m) / s)) xs
      | _ \<Rightarrow> map (\<lambda>x. None) xs)"

text \<open>
  \<^verbatim>\<open>SimpleImputer(strategy="median")\<close> on one column: \<^verbatim>\<open>statistics_\<close> is the median of
  the observed values it is fitted on; \<^verbatim>\<open>transform\<close> puts it in place of every missing
  value. A column that had no observed value in \<^verbatim>\<open>fit\<close> is dropped by \<^verbatim>\<open>transform\<close>.
\<close>

definition imputer_fit :: "real option list \<Rightarrow> real option" where
  "imputer_fit xs = median (observed xs)"

definition imputer_transform :: "real option \<Rightarrow> real option list \<Rightarrow> real list option" where
  "imputer_transform statistic xs =
     (case statistic of
        None \<Rightarrow> None
      | Some fill \<Rightarrow> Some (map (\<lambda>x. case x of None \<Rightarrow> fill | Some v \<Rightarrow> v) xs))"

text \<open>
  The notebook's \<^verbatim>\<open>numeric_preprocessing_steps\<close>: a Pipeline of the scaler, then the
  imputer. Fitting fits the scaler on the column, transforms the column with it, and
  fits the imputer on the result; transforming applies the two in the same order.
\<close>

record numeric_steps =
  standard_scaler :: scaler_column
  simple_imputer :: "real option"

definition numeric_preprocessing_fit :: "real option list \<Rightarrow> numeric_steps" where
  "numeric_preprocessing_fit xs =
     (let sc = scaler_fit xs
      in \<lparr>standard_scaler = sc, simple_imputer = imputer_fit (scaler_transform sc xs)\<rparr>)"

definition numeric_preprocessing_transform ::
  "numeric_steps \<Rightarrow> real option list \<Rightarrow> real list option" where
  "numeric_preprocessing_transform st xs =
     imputer_transform (simple_imputer st) (scaler_transform (standard_scaler st) xs)"

text \<open>
  The preprocessor's output matrix, row by row: one entry for each selected column that
  was not dropped.
\<close>

definition preprocessor_transform ::
  "sklearn \<Rightarrow> string list \<Rightarrow> numeric_steps list \<Rightarrow> table \<Rightarrow> error + real list list" where
  "preprocessor_transform L names steps X =
     and_then (select_columns L names X) (\<lambda>cols.
       if list_ex (\<lambda>c. length c \<noteq> length (index X)) cols then Inl ValueError
       else
         let outs = List.map_filter (\<lambda>(st, c). numeric_preprocessing_transform st c)
                      (zip steps cols)
         in Inr (map (\<lambda>i. map (\<lambda>c. c ! i) outs) [0..<length (index X)]))"

subsection \<open>LogisticRegression and MultiOutputClassifier\<close>

text \<open>
  The classes of a target column are its distinct values in ascending order
  (\<^verbatim>\<open>np.unique\<close>), and every row is encoded by the position of its class. A missing label
  or fewer than two classes raises ValueError.
\<close>

definition class_index :: "'a list \<Rightarrow> 'a \<Rightarrow> nat" where
  "class_index cs y = length (takeWhile (\<lambda>c. c \<noteq> y) cs)"

definition encode :: "('a::linorder) option list \<Rightarrow> error + (nat \<times> nat list)" where
  "encode ys =
     (case those ys of
        None \<Rightarrow> Inl ValueError
      | Some vs \<Rightarrow>
          let cs = sort (remdups vs)
          in if length cs < 2 then Inl ValueError
             else Inr (length cs, map (class_index cs) vs))"

fun encode_labels :: "column \<Rightarrow> error + (nat \<times> nat list)" where
  "encode_labels (Num ys) = encode ys"
| "encode_labels (Obj ys) = encode ys"

text \<open>
  A fitted LogisticRegression: the number of classes and the rows of \<^verbatim>\<open>coef_\<close> and
  \<^verbatim>\<open>intercept_\<close>. The generator reaches the minimisation only for the solvers that draw
  random numbers (\<^verbatim>\<open>liblinear\<close>, \<^verbatim>\<open>sag\<close>, \<^verbatim>\<open>saga\<close>).
\<close>

record lr_fitted =
  n_classes :: nat
  theta :: "nat \<Rightarrow> real list \<times> real"

definition lr_fit ::
  "sklearn \<Rightarrow> logistic_regression \<Rightarrow> rng \<Rightarrow> real list list \<Rightarrow> column \<Rightarrow> error + lr_fitted"
  where
  "lr_fit L est np_global X y =
     and_then (encode_labels y) (\<lambda>(k, ys).
       if length ys \<noteq> length X then Inl ValueError
       else
         let gen = (if solver est \<in> {''liblinear'', ''sag'', ''saga''}
                    then Some (check_random_state (random_state est) np_global)
                    else None)
         in Inr \<lparr>n_classes = k, theta = minimize L est gen X ys k\<rparr>)"

definition decision :: "lr_fitted \<Rightarrow> nat \<Rightarrow> real list \<Rightarrow> real" where
  "decision m k x = sum_list (map2 (*) (fst (theta m k)) x) + snd (theta m k)"

definition expit :: "real \<Rightarrow> real" where
  "expit z = 1 / (1 + exp (- z))"

definition softmax :: "real list \<Rightarrow> real list" where
  "softmax zs = map (\<lambda>z. exp z / sum_list (map exp zs)) zs"

text \<open>
  \<^verbatim>\<open>predict_proba\<close> for one row: with two classes the sigmoid of the one decision value
  for the second class and its complement for the first; with more classes the softmax
  of the decision values.
\<close>

definition lr_predict_proba :: "lr_fitted \<Rightarrow> real list \<Rightarrow> real list" where
  "lr_predict_proba m x =
     (if n_classes m = 2
      then [1 - expit (decision m 0 x), expit (decision m 0 x)]
      else softmax (map (\<lambda>k. decision m k x) [0..<n_classes m]))"

text \<open>
  \<^verbatim>\<open>MultiOutputClassifier(estimator)\<close> fits one copy of the estimator for each column of
  the label frame, in frame order, and \<^verbatim>\<open>predict_proba\<close> returns the list of their
  probability matrices.
\<close>

fun multi_output_fit ::
  "sklearn \<Rightarrow> logistic_regression \<Rightarrow> rng \<Rightarrow> real list list \<Rightarrow> column list \<Rightarrow>
     error + lr_fitted list" where
  "multi_output_fit L est np_global X [] = Inr []"
| "multi_output_fit L est np_global X (y # ys) =
     and_then (lr_fit L est np_global X y) (\<lambda>m.
     and_then (multi_output_fit L est np_global X ys) (\<lambda>ms. Inr (m # ms)))"

definition multi_output_predict_proba :: "lr_fitted list \<Rightarrow> real list list \<Rightarrow> real list list list"
  where
  "multi_output_predict_proba ms X = map (\<lambda>m. map (lr_predict_proba m) X) ms"

subsection \<open>The full pipeline\<close>

text \<open>
  The notebook's \<^verbatim>\<open>full_pipeline\<close>: the preprocessor over \<^verbatim>\<open>numeric_cols\<close>, then the
  multi-output logistic regression. The object is built unfitted; \<^verbatim>\<open>fit\<close> stores the
  fitted steps in it, and \<^verbatim>\<open>predict_proba\<close> before any \<^verbatim>\<open>fit\<close> raises NotFittedError.
\<close>

record fitted_steps =
  numeric_fitted :: "numeric_steps list"
  estimators_fitted :: "lr_fitted list"

record pipeline =
  transformer_columns :: "string list"
  estimator :: logistic_regression
  fitted :: "fitted_steps option"

definition pipeline_fit :: "sklearn \<Rightarrow> rng \<Rightarrow> pipeline \<Rightarrow> table \<Rightarrow> table \<Rightarrow> error + pipeline"
  where
  "pipeline_fit L np_global p X y =
     and_then (select_columns L (transformer_columns p) X) (\<lambda>cols.
       let steps = map numeric_preprocessing_fit cols
       in and_then (preprocessor_transform L (transformer_columns p) steps X) (\<lambda>Xt.
          and_then (multi_output_fit L (estimator p) np_global Xt (map snd (columns y)))
            (\<lambda>ms. Inr (p\<lparr>fitted :=
                           Some \<lparr>numeric_fitted = steps, estimators_fitted = ms\<rparr>\<rparr>))))"

definition pipeline_predict_proba ::
  "sklearn \<Rightarrow> pipeline \<Rightarrow> table \<Rightarrow> error + real list list list" where
  "pipeline_predict_proba L p X =
     (case fitted p of
        None \<Rightarrow> Inl NotFittedError
      | Some f \<Rightarrow>
          and_then (preprocessor_transform L (transformer_columns p) (numeric_fitted f) X)
            (\<lambda>Xt. Inr (multi_output_predict_proba (estimators_fitted f) Xt)))"

text \<open>\<^verbatim>\<open>probas[k][:, 1]\<close>: the second column of the \<open>k\<close>-th probability matrix.\<close>

definition second_column :: "real list list list \<Rightarrow> nat \<Rightarrow> error + real list" where
  "second_column probas k =
     (if length probas \<le> k then Inl IndexError
      else if list_ex (\<lambda>row. length row < 2) (probas ! k) then Inl IndexError
      else Inr (map (\<lambda>row. row ! 1) (probas ! k)))"

subsection \<open>ROC curve and ROC-AUC\<close>

text \<open>
  The notebook scores its evaluation predictions with scikit-learn's \<^verbatim>\<open>roc_curve\<close> and
  \<^verbatim>\<open>roc_auc_score\<close>: in \<^verbatim>\<open>plot_roc\<close> for each target, with the target's column of
  \<^verbatim>\<open>y_eval\<close> and of \<^verbatim>\<open>y_preds\<close>, and in cell 88 with the two frames as a whole. A label
  vector is given here as the list that says for each row whether it is of the positive
  class (the label 1 of the notebook's targets), a score vector as the list of the scores.

  \<^verbatim>\<open>roc_curve(y_true, y_score)\<close>: the thresholds are the distinct scores in decreasing
  order; at each threshold the rows counted as positive are those with a score at least
  as high, which gives the number of false positives (among the negative rows) and of
  true positives (among the positive rows).
\<close>

definition thresholds :: "real list \<Rightarrow> real list" where
  "thresholds y_score = rev (sort (remdups y_score))"

definition positives :: "bool list \<Rightarrow> real list \<Rightarrow> real list" where
  "positives y_true y_score = map snd (filter (\<lambda>(y, s). y) (zip y_true y_score))"

definition negatives :: "bool list \<Rightarrow> real list \<Rightarrow> real list" where
  "negatives y_true y_score = map snd (filter (\<lambda>(y, s). \<not> y) (zip y_true y_score))"

definition at_least :: "real \<Rightarrow> real list \<Rightarrow> nat" where
  "at_least t scores = length (filter (\<lambda>s. t \<le> s) scores)"

definition binary_clf_curve :: "bool list \<Rightarrow> real list \<Rightarrow> (nat \<times> nat) list" where
  "binary_clf_curve y_true y_score =
     map (\<lambda>t. (at_least t (negatives y_true y_score), at_least t (positives y_true y_score)))
       (thresholds y_score)"

text \<open>
  With \<^verbatim>\<open>drop_intermediate=True\<close>, the default, \<^verbatim>\<open>roc_curve\<close> leaves out every point
  between the first and the last at which the second difference of both counts is zero,
  that is, which lies half-way between the two points next to it in the full list.
\<close>

fun drop_after :: "nat \<times> nat \<Rightarrow> (nat \<times> nat) list \<Rightarrow> (nat \<times> nat) list" where
  "drop_after before (p # after # ps) =
     (if fst before + fst after = 2 * fst p \<and> snd before + snd after = 2 * snd p
      then drop_after p (after # ps)
      else p # drop_after p (after # ps))"
| "drop_after before ps = ps"

fun drop_intermediate :: "(nat \<times> nat) list \<Rightarrow> (nat \<times> nat) list" where
  "drop_intermediate (p # ps) = p # drop_after p ps"
| "drop_intermediate [] = []"

text \<open>
  The curve starts at the origin and goes on with the remaining points, the counts
  divided by the number of negative and of positive rows: the false positive rate and the
  true positive rate.
\<close>

definition rate :: "nat \<Rightarrow> nat \<Rightarrow> nat \<times> nat \<Rightarrow> real \<times> real" where
  "rate n_neg n_pos p = (real (fst p) / real n_neg, real (snd p) / real n_pos)"

definition roc_curve :: "bool list \<Rightarrow> real list \<Rightarrow> (real \<times> real) list" where
  "roc_curve y_true y_score =
     (0, 0) #
     map (rate (length (negatives y_true y_score)) (length (positives y_true y_score)))
       (drop_intermediate (binary_clf_curve y_true y_score))"

text \<open>
  \<^verbatim>\<open>auc(fpr, tpr)\<close>: the area under the curve by the trapezoidal rule.
  \<^verbatim>\<open>roc_auc_score(y_true, y_score)\<close> on two vectors: ValueError when the two differ in
  length or when only one class is present in \<^verbatim>\<open>y_true\<close>; otherwise the area under the
  ROC curve.
\<close>

fun auc :: "(real \<times> real) list \<Rightarrow> real" where
  "auc ((x0, y0) # (x1, y1) # ps) = (x1 - x0) * (y0 + y1) / 2 + auc ((x1, y1) # ps)"
| "auc ps = 0"

definition roc_auc_score :: "bool list \<Rightarrow> real list \<Rightarrow> error + real" where
  "roc_auc_score y_true y_score =
     (if length y_true \<noteq> length y_score then Inl ValueError
      else if True \<notin> set y_true \<or> False \<notin> set y_true then Inl ValueError
      else Inr (auc (roc_curve y_true y_score)))"

text \<open>
  \<^verbatim>\<open>roc_auc_score(y_true, y_score)\<close> on two frames with one column for each target
  (cell 88): the unweighted mean of the scores of the columns (ValueError when one of
  them raises it, or when the frames differ in their number of columns).
\<close>

fun binary_scores :: "bool list list \<Rightarrow> real list list \<Rightarrow> error + real list" where
  "binary_scores (y # ys) (s # ss) =
     and_then (roc_auc_score y s) (\<lambda>a.
     and_then (binary_scores ys ss) (\<lambda>as. Inr (a # as)))"
| "binary_scores [] [] = Inr []"
| "binary_scores ys ss = Inl ValueError"

definition roc_auc_score_macro :: "bool list list \<Rightarrow> real list list \<Rightarrow> error + real" where
  "roc_auc_score_macro y_true y_score =
     and_then (binary_scores y_true y_score) (\<lambda>as.
       if as = [] then Inl ValueError else Inr (sum_list as / real (length as)))"

subsection \<open>The notebook's variables and files\<close>

text \<open>
  The paths are relative to the repository root (the parent of the notebook's working
  directory). \<open>np_random\<close> is numpy's process-wide generator. A variable is \<^term>\<open>None\<close>
  until a statement assigns it.

  Each variable holds its own frame: no statement of the notebook binds two names to one
  object, every library call of the notebook returns a new object, and the only in-place
  updates are the two column assignments on \<^verbatim>\<open>submission_df\<close> and the two calls of
  \<^verbatim>\<open>full_pipeline.fit\<close>.
\<close>

definition TRAINING_SET_FEATURES :: string where
  "TRAINING_SET_FEATURES = ''data/raw/training_set_features.csv''"

definition TRAINING_SET_LABELS :: string where
  "TRAINING_SET_LABELS = ''data/raw/training_set_labels.csv''"

definition TEST_SET_FEATURES :: string where
  "TEST_SET_FEATURES = ''data/raw/test_set_features.csv''"

definition SUBMISSION_FORMAT :: string where
  "SUBMISSION_FORMAT = ''data/raw/submission_format.csv''"

definition OUTPUT_DATA_PATH :: string where
  "OUTPUT_DATA_PATH = ''data/processed/my_submission.csv''"

record notebook =
  files :: "string \<rightharpoonup> table"
  np_random :: rng
  features_df :: "table option"
  labels_df :: "table option"
  joined_df :: "table option"
  numeric_cols :: "string list option"
  full_pipeline :: "pipeline option"
  X_train :: "table option"
  X_eval :: "table option"
  y_train :: "table option"
  y_eval :: "table option"
  preds :: "real list list list option"
  y_preds :: "table option"
  test_features_df :: "table option"
  test_probas :: "real list list list option"
  submission_df :: "table option"

definition fresh_kernel :: "(string \<rightharpoonup> table) \<Rightarrow> rng \<Rightarrow> notebook" where
  "fresh_kernel fs g =
     \<lparr>files = fs, np_random = g, features_df = None, labels_df = None, joined_df = None,
      numeric_cols = None, full_pipeline = None, X_train = None, X_eval = None,
      y_train = None, y_eval = None, preds = None, y_preds = None,
      test_features_df = None, test_probas = None, submission_df = None\<rparr>"

subsection \<open>The statements, in notebook order\<close>

text \<open>Cell 12: the training features and labels.\<close>

definition load_features :: "notebook \<Rightarrow> error + notebook" where
  "load_features s =
     and_then (read_csv (files s) TRAINING_SET_FEATURES ''respondent_id'')
       (\<lambda>t. Inr (s\<lparr>features_df := Some t\<rparr>))"

definition load_labels :: "notebook \<Rightarrow> error + notebook" where
  "load_labels s =
     and_then (read_csv (files s) TRAINING_SET_LABELS ''respondent_id'')
       (\<lambda>t. Inr (s\<lparr>labels_df := Some t\<rparr>))"

text \<open>
  Cell 20:
  \<^verbatim>\<open>np.testing.assert_array_equal(features_df.index.values, labels_df.index.values)\<close>.
\<close>

definition assert_train_index :: "notebook \<Rightarrow> error + notebook" where
  "assert_train_index s =
     and_then (var (features_df s)) (\<lambda>f.
     and_then (var (labels_df s)) (\<lambda>l.
     and_then (assert_array_equal (index f) (index l)) (\<lambda>u. Inr s)))"

text \<open>Cell 37: \<^verbatim>\<open>joined_df = features_df.join(labels_df)\<close>.\<close>

definition join_features_labels :: "notebook \<Rightarrow> error + notebook" where
  "join_features_labels s =
     and_then (var (features_df s)) (\<lambda>f.
     and_then (var (labels_df s)) (\<lambda>l.
     and_then (join f l) (\<lambda>j. Inr (s\<lparr>joined_df := Some j\<rparr>))))"

text \<open>Cell 63: the numeric column names of the training features.\<close>

definition assign_numeric_cols :: "notebook \<Rightarrow> error + notebook" where
  "assign_numeric_cols s =
     and_then (var (features_df s)) (\<lambda>f. Inr (s\<lparr>numeric_cols := Some (numeric_cols_of f)\<rparr>))"

text \<open>
  Cells 66 to 71: the preprocessor over \<^verbatim>\<open>numeric_cols\<close>, the estimator
  \<^verbatim>\<open>LogisticRegression(penalty="l2", C=1)\<close> (solver and random state at their defaults,
  \<^verbatim>\<open>lbfgs\<close> and \<^verbatim>\<open>None\<close>) and the pipeline of the two.
\<close>

definition notebook_estimator :: logistic_regression where
  "notebook_estimator = \<lparr>penalty = ''l2'', C = 1, solver = ''lbfgs'', random_state = None\<rparr>"

definition build_full_pipeline :: "notebook \<Rightarrow> error + notebook" where
  "build_full_pipeline s =
     and_then (var (numeric_cols s)) (\<lambda>ns.
       Inr (s\<lparr>full_pipeline :=
               Some \<lparr>transformer_columns = ns, estimator = notebook_estimator,
                     fitted = None\<rparr>\<rparr>))"

text \<open>
  Cell 78: \<^verbatim>\<open>train_test_split(features_df, labels_df, test_size=0.33, shuffle=True,
  stratify=labels_df, random_state=RANDOM_SEED)\<close>.
\<close>

definition split_train_eval :: "sklearn \<Rightarrow> notebook \<Rightarrow> error + notebook" where
  "split_train_eval L s =
     and_then (var (features_df s)) (\<lambda>f.
     and_then (var (labels_df s)) (\<lambda>l.
     and_then (train_test_split L (np_random s) f l (33 / 100) (Some RANDOM_SEED))
       (\<lambda>(X_tr, X_ev, y_tr, y_ev).
          Inr (s\<lparr>X_train := Some X_tr, X_eval := Some X_ev,
                 y_train := Some y_tr, y_eval := Some y_ev\<rparr>))))"

text \<open>
  Cell 80: \<^verbatim>\<open>full_pipeline.fit(X_train, y_train)\<close>, then
  \<^verbatim>\<open>preds = full_pipeline.predict_proba(X_eval)\<close>.
\<close>

definition fit_on_train :: "sklearn \<Rightarrow> notebook \<Rightarrow> error + notebook" where
  "fit_on_train L s =
     and_then (var (full_pipeline s)) (\<lambda>p.
     and_then (var (X_train s)) (\<lambda>X.
     and_then (var (y_train s)) (\<lambda>y.
     and_then (pipeline_fit L (np_random s) p X y) (\<lambda>p'.
       Inr (s\<lparr>full_pipeline := Some p'\<rparr>)))))"

definition predict_eval :: "sklearn \<Rightarrow> notebook \<Rightarrow> error + notebook" where
  "predict_eval L s =
     and_then (var (full_pipeline s)) (\<lambda>p.
     and_then (var (X_eval s)) (\<lambda>X.
     and_then (pipeline_predict_proba L p X) (\<lambda>pr. Inr (s\<lparr>preds := Some pr\<rparr>))))"

text \<open>
  Cell 83: \<^verbatim>\<open>y_preds\<close>, a frame over the index of \<^verbatim>\<open>y_eval\<close> with the columns
  \<^verbatim>\<open>preds[0][:, 1]\<close> and \<^verbatim>\<open>preds[1][:, 1]\<close>.
\<close>

definition build_y_preds :: "notebook \<Rightarrow> error + notebook" where
  "build_y_preds s =
     and_then (var (preds s)) (\<lambda>pr.
     and_then (second_column pr 0) (\<lambda>a.
     and_then (second_column pr 1) (\<lambda>b.
     and_then (var (y_eval s)) (\<lambda>ye.
       if length a \<noteq> length (index ye) \<or> length b \<noteq> length (index ye)
       then Inl ValueError
       else Inr (s\<lparr>y_preds :=
                    Some \<lparr>index_name = index_name ye, index = index ye,
                          columns = [(''h1n1_vaccine'', Num (map Some a)),
                                     (''seasonal_vaccine'', Num (map Some b))]\<rparr>\<rparr>)))))"

text \<open>Cell 90: \<^verbatim>\<open>full_pipeline.fit(features_df, labels_df)\<close>.\<close>

definition fit_on_full :: "sklearn \<Rightarrow> notebook \<Rightarrow> error + notebook" where
  "fit_on_full L s =
     and_then (var (full_pipeline s)) (\<lambda>p.
     and_then (var (features_df s)) (\<lambda>X.
     and_then (var (labels_df s)) (\<lambda>y.
     and_then (pipeline_fit L (np_random s) p X y) (\<lambda>p'.
       Inr (s\<lparr>full_pipeline := Some p'\<rparr>)))))"

text \<open>Cells 93 and 94: the test features and their predicted probabilities.\<close>

definition load_test_features :: "notebook \<Rightarrow> error + notebook" where
  "load_test_features s =
     and_then (read_csv (files s) TEST_SET_FEATURES ''respondent_id'')
       (\<lambda>t. Inr (s\<lparr>test_features_df := Some t\<rparr>))"

definition predict_test :: "sklearn \<Rightarrow> notebook \<Rightarrow> error + notebook" where
  "predict_test L s =
     and_then (var (full_pipeline s)) (\<lambda>p.
     and_then (var (test_features_df s)) (\<lambda>X.
     and_then (pipeline_predict_proba L p X) (\<lambda>pr. Inr (s\<lparr>test_probas := Some pr\<rparr>))))"

text \<open>Cell 97: the submission format.\<close>

definition load_submission_format :: "notebook \<Rightarrow> error + notebook" where
  "load_submission_format s =
     and_then (read_csv (files s) SUBMISSION_FORMAT ''respondent_id'')
       (\<lambda>t. Inr (s\<lparr>submission_df := Some t\<rparr>))"

text \<open>
  Cell 100, first statement:
  \<^verbatim>\<open>np.testing.assert_array_equal(test_features_df.index.values, submission_df.index.values)\<close>.
\<close>

definition assert_test_index :: "notebook \<Rightarrow> error + notebook" where
  "assert_test_index s =
     and_then (var (test_features_df s)) (\<lambda>t.
     and_then (var (submission_df s)) (\<lambda>d.
     and_then (assert_array_equal (index t) (index d)) (\<lambda>u. Inr s)))"

text \<open>
  Cell 100, the two assignments:
  \<^verbatim>\<open>submission_df["h1n1_vaccine"] = test_probas[0][:, 1]\<close> and
  \<^verbatim>\<open>submission_df["seasonal_vaccine"] = test_probas[1][:, 1]\<close>.
\<close>

definition assign_h1n1 :: "notebook \<Rightarrow> error + notebook" where
  "assign_h1n1 s =
     and_then (var (test_probas s)) (\<lambda>pr.
     and_then (second_column pr 0) (\<lambda>a.
     and_then (var (submission_df s)) (\<lambda>d.
     and_then (setitem d ''h1n1_vaccine'' a) (\<lambda>d'.
       Inr (s\<lparr>submission_df := Some d'\<rparr>)))))"

definition assign_seasonal :: "notebook \<Rightarrow> error + notebook" where
  "assign_seasonal s =
     and_then (var (test_probas s)) (\<lambda>pr.
     and_then (second_column pr 1) (\<lambda>b.
     and_then (var (submission_df s)) (\<lambda>d.
     and_then (setitem d ''seasonal_vaccine'' b) (\<lambda>d'.
       Inr (s\<lparr>submission_df := Some d'\<rparr>)))))"

text \<open>Cell 102: \<^verbatim>\<open>submission_df.to_csv(OUTPUT_DATA_PATH, index=True)\<close>.\<close>

definition write_submission :: "notebook \<Rightarrow> error + notebook" where
  "write_submission s =
     and_then (var (submission_df s)) (\<lambda>d.
       Inr (s\<lparr>files := to_csv (files s) OUTPUT_DATA_PATH d\<rparr>))"

subsection \<open>Running the notebook\<close>

definition training_part :: "sklearn \<Rightarrow> (notebook \<Rightarrow> error + notebook) list" where
  "training_part L =
     [load_features, load_labels, assert_train_index, join_features_labels,
      assign_numeric_cols, build_full_pipeline, split_train_eval L, fit_on_train L,
      predict_eval L, build_y_preds, fit_on_full L]"

definition test_part :: "sklearn \<Rightarrow> (notebook \<Rightarrow> error + notebook) list" where
  "test_part L = [load_test_features, predict_test L, load_submission_format]"

definition submission_cell :: "(notebook \<Rightarrow> error + notebook) list" where
  "submission_cell = [assert_test_index, assign_h1n1, assign_seasonal]"

definition statements :: "sklearn \<Rightarrow> (notebook \<Rightarrow> error + notebook) list" where
  "statements L = training_part L @ test_part L @ submission_cell @ [write_submission]"

text \<open>
  Run All: the statements in order; the first that raises stops the run and leaves the
  variables and files as they were before it. The result is the last state and the error,
  if any. (A \<^verbatim>\<open>fit\<close> that raises half-way may leave fitted steps inside the pipeline
  object; the model keeps the pipeline as it was. No statement runs after it.)
\<close>

fun exec :: "('s \<Rightarrow> error + 's) list \<Rightarrow> 's \<Rightarrow> 's \<times> error option" where
  "exec [] s = (s, None)"
| "exec (c # cs) s = (case c s of Inl e \<Rightarrow> (s, Some e) | Inr s' \<Rightarrow> exec cs s')"

text \<open>Every state the run goes through, the first included.\<close>

fun states :: "('s \<Rightarrow> error + 's) list \<Rightarrow> 's \<Rightarrow> 's list" where
  "states [] s = [s]"
| "states (c # cs) s = s # (case c s of Inl e \<Rightarrow> [] | Inr s' \<Rightarrow> states cs s')"

definition run_all :: "sklearn \<Rightarrow> (string \<rightharpoonup> table) \<Rightarrow> rng \<Rightarrow> notebook \<times> error option" where
  "run_all L fs g = exec (statements L) (fresh_kernel fs g)"

subsection \<open>A small data set\<close>

text \<open>
  Four respondents for training, two for the test, one numeric and one string feature.
  The shuffle keeps the rows in order, and the minimisation returns the coefficient 1 and
  the intercept 0 whatever it is given.
\<close>

definition example_features :: table where
  "example_features =
     \<lparr>index_name = ''respondent_id'', index = [0, 1, 2, 3],
      columns = [(''h1n1_concern'', Num [Some 0, Some 2, Some 0, Some 2]),
                 (''sex'', Obj [Some ''Female'', Some ''Male'', None, Some ''Male''])]\<rparr>"

definition example_labels :: table where
  "example_labels =
     \<lparr>index_name = ''respondent_id'', index = [0, 1, 2, 3],
      columns = [(''h1n1_vaccine'', Num [Some 0, Some 1, Some 0, Some 1]),
                 (''seasonal_vaccine'', Num [Some 1, Some 0, Some 1, Some 0])]\<rparr>"

definition example_test_features :: table where
  "example_test_features =
     \<lparr>index_name = ''respondent_id'', index = [4, 5],
      columns = [(''h1n1_concern'', Num [None, Some 2]),
                 (''sex'', Obj [Some ''Male'', Some ''Female''])]\<rparr>"

definition example_submission_format :: table where
  "example_submission_format =
     \<lparr>index_name = ''respondent_id'', index = [4, 5],
      columns = [(''h1n1_vaccine'', Num [Some (1 / 2), Some (1 / 2)]),
                 (''seasonal_vaccine'', Num [Some (7 / 10), Some (7 / 10)])]\<rparr>"

definition example_files :: "string \<rightharpoonup> table" where
  "example_files =
     [TRAINING_SET_FEATURES \<mapsto> example_features,
      TRAINING_SET_LABELS \<mapsto> example_labels,
      TEST_SET_FEATURES \<mapsto> example_test_features,
      SUBMISSION_FORMAT \<mapsto> example_submission_format]"

text \<open>
  Python's \<^verbatim>\<open>float\<close> on the strings of the examples: an underscore between two digits is
  skipped, so \<^verbatim>\<open>float("1_0")\<close> is 10 and \<^verbatim>\<open>float("2_0")\<close> is 20 (pandas reads neither as
  a number and leaves the column at dtype \<^verbatim>\<open>object\<close>); the other strings of the examples
  are no floats.
\<close>

definition example_float :: "string \<Rightarrow> real option option" where
  "example_float str =
     (if str = ''1_0'' then Some (Some 10)
      else if str = ''2_0'' then Some (Some 20)
      else None)"

definition example_sklearn :: sklearn where
  "example_sklearn =
     \<lparr>stratified_shuffle_split =
        (\<lambda>g ys n_train n_test. Some ([0..<n_train], [n_train..<n_train + n_test])),
      minimize = (\<lambda>est gen X ys k j. ([1], 0)),
      astype_float = example_float\<rparr>"



text \<open>The same files with the submission format listing the two respondents in reverse.\<close>

definition example_files_reordered :: "string \<rightharpoonup> table" where
  "example_files_reordered =
     example_files(SUBMISSION_FORMAT \<mapsto> example_submission_format\<lparr>index := [5, 4]\<rparr>)"

text \<open>
  Library routines whose shuffle reads its generator: a seeded generator keeps the rows in
  order, the process-wide one puts the test rows first.
\<close>

definition generator_sklearn :: sklearn where
  "generator_sklearn =
     \<lparr>stratified_shuffle_split =
        (\<lambda>gen ys n_train n_test.
           case gen of
             RandomState n \<Rightarrow> Some ([0..<n_train], [n_train..<n_train + n_test])
           | Entropy k \<Rightarrow> Some ([n_test..<n_test + n_train], [0..<n_test])),
      minimize = (\<lambda>est gen X ys k j. ([1], 0)),
      astype_float = example_float\<rparr>"

text \<open>The training features with other strings in the \<^verbatim>\<open>sex\<close> column.\<close>

definition example_features_other :: table where
  "example_features_other =
     \<lparr>index_name = ''respondent_id'', index = [0, 1, 2, 3],
      columns = [(''h1n1_concern'', Num [Some 0, Some 2, Some 0, Some 2]),
                 (''sex'', Obj [Some ''Male'', None, Some ''Female'', Some ''Female''])]\<rparr>"

text \<open>
  Two files of test features whose \<^verbatim>\<open>h1n1_concern\<close> cells pandas does not read as
  numbers, so that the column has dtype \<^verbatim>\<open>object\<close> in the test frame while it is numeric
  in the training frame. The two differ in this column only.
\<close>

definition example_test_strings :: table where
  "example_test_strings =
     \<lparr>index_name = ''respondent_id'', index = [4, 5],
      columns = [(''h1n1_concern'', Obj [Some ''1_0'', Some ''2_0'']),
                 (''sex'', Obj [Some ''Male'', Some ''Female''])]\<rparr>"

definition example_test_strings_other :: table where
  "example_test_strings_other =
     \<lparr>index_name = ''respondent_id'', index = [4, 5],
      columns = [(''h1n1_concern'', Obj [Some ''2_0'', Some ''1_0'']),
                 (''sex'', Obj [Some ''Male'', Some ''Female''])]\<rparr>"

text \<open>
  The pipeline as the notebook builds it for the example training features, and as it is
  after \<^verbatim>\<open>fit\<close> on them: mean 1 and scale 1 for the one numeric column, fill value 0,
  and for either target the coefficient 1 and the intercept 0.
\<close>

definition example_pipeline :: pipeline where
  "example_pipeline =
     \<lparr>transformer_columns = [''h1n1_concern''], estimator = notebook_estimator,
      fitted = None\<rparr>"

definition example_fitted_pipeline :: pipeline where
  "example_fitted_pipeline =
     example_pipeline
       \<lparr>fitted :=
          Some \<lparr>numeric_fitted =
                  [\<lparr>standard_scaler = \<lparr>mean_of = Some 1, scale_of = Some 1\<rparr>,
                    simple_imputer = Some 0\<rparr>],
                estimators_fitted =
                  [\<lparr>n_classes = 2, theta = (\<lambda>k. ([1], 0))\<rparr>,
                   \<lparr>n_classes = 2, theta = (\<lambda>k. ([1], 0))\<rparr>]\<rparr>\<rparr>"






subsection \<open>Predicates used in the proofs\<close>

text \<open>
  Two frames agree on their numeric columns when they have the same number of rows and
  the same columns of a dtype other than \<^verbatim>\<open>object\<close>, by name, content and order.
\<close>

definition numeric_part :: "table \<Rightarrow> (string \<times> column) list" where
  "numeric_part df = filter (\<lambda>c. \<not> is_object (snd c)) (columns df)"

definition agree_on_numeric :: "table \<Rightarrow> table \<Rightarrow> bool" where
  "agree_on_numeric X X' \<longleftrightarrow>
     length (index X) = length (index X') \<and> numeric_part X = numeric_part X'"

text \<open>
  A state in which nothing has been written and the test features and the submission
  frame, where loaded, are what their files hold.
\<close>

definition untouched :: "(string \<rightharpoonup> table) \<Rightarrow> notebook \<Rightarrow> bool" where
  "untouched fs u \<longleftrightarrow>
     files u = fs \<and>
     (test_features_df u = None \<or> test_features_df u = fs TEST_SET_FEATURES) \<and>
     (submission_df u = None \<or> submission_df u = fs SUBMISSION_FORMAT)"

text \<open>
  A state in which the training frames, where loaded, are what their files hold, and no
  file but the output file differs from the files the run started with.
\<close>

definition inputs_kept :: "(string \<rightharpoonup> table) \<Rightarrow> notebook \<Rightarrow> bool" where
  "inputs_kept fs u \<longleftrightarrow>
     (features_df u = None \<or> features_df u = fs TRAINING_SET_FEATURES) \<and>
     (labels_df u = None \<or> labels_df u = fs TRAINING_SET_LABELS) \<and>
     (\<forall>p. p = OUTPUT_DATA_PATH \<or> files u p = fs p)"

text \<open>A state in which both training frames are loaded and are what their files hold.\<close>

definition training_loaded :: "(string \<rightharpoonup> table) \<Rightarrow> notebook \<Rightarrow> bool" where
  "training_loaded fs u \<longleftrightarrow>
     (\<exists>F Y. fs TRAINING_SET_FEATURES = Some F \<and> fs TRAINING_SET_LABELS = Some Y \<and>
            features_df u = Some F \<and> labels_df u = Some Y)"

text \<open>A state whose pipeline, where built, uses the solver that draws no random numbers.\<close>

definition lbfgs_pipeline :: "notebook \<Rightarrow> bool" where
  "lbfgs_pipeline u \<longleftrightarrow>
     (case full_pipeline u of None \<Rightarrow> True | Some p \<Rightarrow> solver (estimator p) = ''lbfgs'')"

text \<open>
  Numbers in the closed interval from 0 to 1; lists of probability matrices, and columns
  of a frame, that hold nothing else; and the states whose probabilities are of this kind.
\<close>

definition unit_interval :: "real \<Rightarrow> bool" where
  "unit_interval v \<longleftrightarrow> 0 \<le> v \<and> v \<le> 1"

definition probabilities :: "real list list list \<Rightarrow> bool" where
  "probabilities pr \<longleftrightarrow> list_all (list_all (list_all unit_interval)) pr"

fun probability_column :: "column \<Rightarrow> bool" where
  "probability_column (Num xs) =
     list_all (\<lambda>x. case x of None \<Rightarrow> False | Some v \<Rightarrow> unit_interval v) xs"
| "probability_column (Obj xs) = False"

definition probabilities_in_unit_interval :: "notebook \<Rightarrow> bool" where
  "probabilities_in_unit_interval u \<longleftrightarrow>
     (case preds u of None \<Rightarrow> True | Some pr \<Rightarrow> probabilities pr) \<and>
     (case test_probas u of None \<Rightarrow> True | Some pr \<Rightarrow> probabilities pr) \<and>
     (case y_preds u of
        None \<Rightarrow> True
      | Some t \<Rightarrow> list_all (\<lambda>c. probability_column (snd c)) (columns t))"


text \<open>
  A predictor that draws every score uniformly and independently from a finite list of
  values: every score vector over the list is equally likely, and the expected ROC-AUC is
  the mean over all of them. For the two-frame score the draws are the lists of one score
  vector of \<open>n\<close> rows for each target.
\<close>

definition expected_roc_auc :: "bool list \<Rightarrow> real list \<Rightarrow> real" where
  "expected_roc_auc y_true grid =
     (let draws = List.n_lists (length y_true) grid
      in sum_list (map (\<lambda>y_score. auc (roc_curve y_true y_score)) draws) /
         real (length draws))"

definition expected_roc_auc_macro :: "bool list list \<Rightarrow> nat \<Rightarrow> real list \<Rightarrow> real" where
  "expected_roc_auc_macro y_true n grid =
     (let draws = List.n_lists (length y_true) (List.n_lists n grid)
      in sum_list (map (\<lambda>y_score. case roc_auc_score_macro y_true y_score of
                                     Inl e \<Rightarrow> 0 | Inr a \<Rightarrow> a) draws) /
         real (length draws))"

text \<open>
  For the proofs about the area: the area of one trapezoid, the numbers of scores above
  and equal to a value, and the score that counts the pairs of a positive and a negative
  row, 1 for a pair ranked in the right order and a half for a tie.
\<close>

definition trapezoid :: "real \<times> real \<Rightarrow> real \<times> real \<Rightarrow> real" where
  "trapezoid a b = (fst b - fst a) * (snd a + snd b) / 2"

definition number_above :: "real \<Rightarrow> real list \<Rightarrow> nat" where
  "number_above t scores = length (filter (\<lambda>s. t < s) scores)"

definition number_equal :: "real \<Rightarrow> real list \<Rightarrow> nat" where
  "number_equal t scores = length (filter (\<lambda>s. s = t) scores)"

definition pair_score :: "real list \<Rightarrow> real list \<Rightarrow> real" where
  "pair_score pos neg =
     (\<Sum>n\<leftarrow>neg. \<Sum>p\<leftarrow>pos. if n < p then 1 else if n = p then 1 / 2 else 0)"

section \<open>Basic facts about errors and runs\<close>

lemma and_then_Inr_iff:
  "and_then r f = Inr y \<longleftrightarrow> (\<exists>x. r = Inr x \<and> f x = Inr y)"
  by (cases r) (simp_all add: and_then_def)


lemma var_Inr_iff: "var v = Inr x \<longleftrightarrow> v = Some x"
  by (cases v) (simp_all add: var_def)


lemma exec_append:
  "exec (cs @ ds) s =
     (case exec cs s of (s', None) \<Rightarrow> exec ds s' | (s', Some e) \<Rightarrow> (s', Some e))"
  by (induction cs arbitrary: s) (simp_all split: sum.splits)

lemma exec_Cons_None:
  "exec (c # cs) s = (t, None) \<longleftrightarrow> (\<exists>s'. c s = Inr s' \<and> exec cs s' = (t, None))"
  by (cases "c s") simp_all

subsection \<open>No library call of the notebook raises AssertionError\<close>

















lemma statements_unfold:
  "statements L =
     [load_features, load_labels, assert_train_index, join_features_labels,
      assign_numeric_cols, build_full_pipeline, split_train_eval L, fit_on_train L,
      predict_eval L, build_y_preds, fit_on_full L, load_test_features, predict_test L,
      load_submission_format, assert_test_index, assign_h1n1, assign_seasonal,
      write_submission]"
  by (simp add: statements_def training_part_def test_part_def submission_cell_def)

section \<open>The two index assertions\<close>



section \<open>The submission keeps the respondents of the test features\<close>

lemma exec_append_None:
  "exec (cs @ ds) s = (t, None) \<longleftrightarrow> (\<exists>u. exec cs s = (u, None) \<and> exec ds u = (t, None))"
  by (cases "exec cs s") (auto simp add: exec_append split: option.splits)

lemma exec_invariant:
  assumes "exec cs s = (t, e)" and "P s"
    and "\<And>c u v. c \<in> set cs \<Longrightarrow> P u \<Longrightarrow> c u = Inr v \<Longrightarrow> P v"
  shows "P t"
  using assms
proof (induction cs arbitrary: s)
  case Nil
  then show ?case by simp
next
  case (Cons c cs)
  show ?case
  proof (cases "c s")
    case (Inl err)
    with Cons.prems show ?thesis by simp
  next
    case (Inr s')
    have "P s'" using Cons.prems(2) Cons.prems(3) [of c s s'] Inr by simp
    moreover have "exec cs s' = (t, e)" using Cons.prems(1) Inr by simp
    ultimately show ?thesis using Cons.IH [of s'] Cons.prems(3) by auto
  qed
qed

lemma states_invariant:
  assumes "u \<in> set (states cs s)" and "P s"
    and "\<And>c u v. c \<in> set cs \<Longrightarrow> P u \<Longrightarrow> c u = Inr v \<Longrightarrow> P v"
  shows "P u"
  using assms
proof (induction cs arbitrary: s)
  case Nil
  then show ?case by simp
next
  case (Cons c cs)
  show ?case
  proof (cases "u = s")
    case True
    then show ?thesis using Cons.prems(2) by simp
  next
    case False
    then obtain s' where step: "c s = Inr s'" and mem: "u \<in> set (states cs s')"
      using Cons.prems(1) by (cases "c s") auto
    have "P s'" using Cons.prems(2) Cons.prems(3) [of c s s'] step by simp
    then show ?thesis using Cons.IH [of s'] mem Cons.prems(3) by auto
  qed
qed

lemma paths_distinct:
  "TRAINING_SET_FEATURES \<noteq> OUTPUT_DATA_PATH" "TRAINING_SET_LABELS \<noteq> OUTPUT_DATA_PATH"
  "TEST_SET_FEATURES \<noteq> OUTPUT_DATA_PATH" "SUBMISSION_FORMAT \<noteq> OUTPUT_DATA_PATH"
  by (simp_all add: TRAINING_SET_FEATURES_def TRAINING_SET_LABELS_def TEST_SET_FEATURES_def
      SUBMISSION_FORMAT_def OUTPUT_DATA_PATH_def)

lemma read_csv_Inr_iff:
  "read_csv fs p i = Inr t \<longleftrightarrow> fs p = Some t \<and> index_name t = i \<and> well_formed t"
  by (auto simp add: read_csv_def split: option.splits)

text \<open>What each statement does to the state when it does not raise.\<close>

lemmas statement_defs =
  load_features_def load_labels_def assert_train_index_def join_features_labels_def
  assign_numeric_cols_def build_full_pipeline_def split_train_eval_def fit_on_train_def
  predict_eval_def build_y_preds_def fit_on_full_def load_test_features_def
  predict_test_def load_submission_format_def assert_test_index_def assign_h1n1_def
  assign_seasonal_def write_submission_def

lemma training_part_unfold:
  "training_part L =
     [load_features, load_labels, assert_train_index, join_features_labels,
      assign_numeric_cols, build_full_pipeline, split_train_eval L, fit_on_train L,
      predict_eval L, build_y_preds, fit_on_full L]"
  by (simp add: training_part_def)

lemma untouched_step:
  assumes "c \<in> set (training_part L @ test_part L)" and "untouched fs u" and "c u = Inr v"
  shows "untouched fs v"
  using assms
  by (auto simp add: training_part_unfold test_part_def untouched_def statement_defs
      and_then_Inr_iff var_Inr_iff read_csv_Inr_iff split: if_splits)

lemma fresh_kernel_untouched: "untouched fs (fresh_kernel fs g)"
  by (simp add: untouched_def fresh_kernel_def)

lemma setitem_index: "setitem d n vs = Inr d' \<Longrightarrow> index d' = index d \<and> index_name d' = index_name d"
  by (auto simp add: setitem_def split: if_splits)

lemma test_part_None:
  assumes "exec (test_part L) v = (u, None)"
  shows "\<exists>t d. test_features_df u = Some t \<and> submission_df u = Some d"
  using assms
  by (auto simp add: test_part_def exec_Cons_None statement_defs and_then_Inr_iff var_Inr_iff
      simp del: exec.simps(2))

lemma before_submission_cell:
  assumes "exec (training_part L @ test_part L) (fresh_kernel fs g) = (u, None)"
  shows "\<exists>t d. files u = fs \<and> fs TEST_SET_FEATURES = Some t \<and> test_features_df u = Some t \<and>
           fs SUBMISSION_FORMAT = Some d \<and> submission_df u = Some d"
proof -
  have inv: "untouched fs u"
    using exec_invariant [OF assms, of "untouched fs"] fresh_kernel_untouched untouched_step
    by blast
  obtain v where "exec (test_part L) v = (u, None)"
    using assms by (auto simp add: exec_append_None)
  then obtain t d where td: "test_features_df u = Some t" "submission_df u = Some d"
    using test_part_None by blast
  have "files u = fs" using inv by (simp add: untouched_def)
  moreover have "fs TEST_SET_FEATURES = Some t" using inv td by (simp add: untouched_def)
  moreover have "fs SUBMISSION_FORMAT = Some d" using inv td by (simp add: untouched_def)
  ultimately show ?thesis using td by simp
qed

lemma submission_cell_and_write:
  assumes "exec (submission_cell @ [write_submission]) u = (s, None)"
  shows "\<exists>t d pr a b d1 d2.
           test_features_df u = Some t \<and> submission_df u = Some d \<and> index t = index d \<and>
           test_probas u = Some pr \<and> second_column pr 0 = Inr a \<and>
           second_column pr 1 = Inr b \<and>
           setitem d ''h1n1_vaccine'' a = Inr d1 \<and> setitem d1 ''seasonal_vaccine'' b = Inr d2 \<and>
           s = u\<lparr>submission_df := Some d2, files := to_csv (files u) OUTPUT_DATA_PATH d2\<rparr>"
  using assms
  by (auto simp add: submission_cell_def exec_Cons_None statement_defs and_then_Inr_iff
      var_Inr_iff assert_array_equal_def simp del: exec.simps(2) split: if_splits)

lemma run_all_None:
  "run_all L fs g = (s, None) \<longleftrightarrow>
     (\<exists>u. exec (training_part L @ test_part L) (fresh_kernel fs g) = (u, None) \<and>
          exec (submission_cell @ [write_submission]) u = (s, None))"
proof -
  have "statements L = (training_part L @ test_part L) @ (submission_cell @ [write_submission])"
    by (simp add: statements_def)
  then show ?thesis
    unfolding run_all_def by (simp only: exec_append_None)
qed

text \<open>
  Claim C1. Whenever the run reaches its end, and so has written the submission file, the
  index of the written frame is the index of the test features as the test file holds
  them: the same respondent identifiers in the same order. It is also the index of the
  submission format, which the run loaded, compared with the test index and did not
  change.
\<close>

theorem written_index_is_test_index:
  assumes "run_all L fs g = (s, None)"
  shows "\<exists>t tpl d. fs TEST_SET_FEATURES = Some t \<and> test_features_df s = Some t \<and>
           fs SUBMISSION_FORMAT = Some tpl \<and> index tpl = index t \<and>
           submission_df s = Some d \<and> files s OUTPUT_DATA_PATH = Some d \<and>
           index d = index t"
proof -
  obtain u where pre: "exec (training_part L @ test_part L) (fresh_kernel fs g) = (u, None)"
    and post: "exec (submission_cell @ [write_submission]) u = (s, None)"
    using assms by (auto simp add: run_all_None)
  obtain t tpl where u: "files u = fs" "fs TEST_SET_FEATURES = Some t"
    "test_features_df u = Some t" "fs SUBMISSION_FORMAT = Some tpl" "submission_df u = Some tpl"
    using before_submission_cell [OF pre] by blast
  obtain pr a b d1 d2 where eq: "index t = index tpl"
    and set1: "setitem tpl ''h1n1_vaccine'' a = Inr d1"
    and set2: "setitem d1 ''seasonal_vaccine'' b = Inr d2"
    and s: "s = u\<lparr>submission_df := Some d2, files := to_csv (files u) OUTPUT_DATA_PATH d2\<rparr>"
    using submission_cell_and_write [OF post] u by auto
  have "index d2 = index t"
    using setitem_index [OF set1] setitem_index [OF set2] eq by simp
  then show ?thesis
    using u s eq by (simp add: to_csv_def)
qed

subsection \<open>The run on the small data set\<close>

lemmas example_tables =
  example_features_def example_labels_def example_test_features_def
  example_submission_format_def

lemma example_files_simps:
  "example_files TRAINING_SET_FEATURES = Some example_features"
  "example_files TRAINING_SET_LABELS = Some example_labels"
  "example_files TEST_SET_FEATURES = Some example_test_features"
  "example_files SUBMISSION_FORMAT = Some example_submission_format"
  "example_files OUTPUT_DATA_PATH = None"
  by (simp_all add: example_files_def TRAINING_SET_FEATURES_def TRAINING_SET_LABELS_def
      TEST_SET_FEATURES_def SUBMISSION_FORMAT_def OUTPUT_DATA_PATH_def)

lemmas evaluation =
  statement_defs read_csv_def and_then_def var_def assert_array_equal_def
  join_def column_names_def Let_def join_pairs_def positions_of_def upt_conv_Cons
  numeric_cols_of_def train_test_split_def iloc_def check_random_state_def
  pipeline_fit_def numeric_preprocessing_fit_def scaler_fit_def nanmean_def nanvar_def
  observed_def List.map_filter_simps scaler_transform_def imputer_fit_def median_def
  preprocessor_transform_def numeric_preprocessing_transform_def imputer_transform_def
  lr_fit_def encode_def class_index_def notebook_estimator_def power2_eq_square
  pipeline_predict_proba_def multi_output_predict_proba_def lr_predict_proba_def
  decision_def second_column_def setitem_def to_csv_def well_formed_def

lemma example_run:
  "snd (run_all example_sklearn example_files g) = None"
  "files (fst (run_all example_sklearn example_files g)) OUTPUT_DATA_PATH =
     Some \<lparr>index_name = ''respondent_id'', index = [4, 5],
            columns = [(''h1n1_vaccine'', Num [Some (expit 0), Some (expit 1)]),
                       (''seasonal_vaccine'', Num [Some (expit 0), Some (expit 1)])]\<rparr>"
  "preds (fst (run_all example_sklearn example_files g)) =
     Some [[[1 - expit (- 1), expit (- 1)], [1 - expit 1, expit 1]],
           [[1 - expit (- 1), expit (- 1)], [1 - expit 1, expit 1]]]"
  "test_probas (fst (run_all example_sklearn example_files g)) =
     Some [[[1 - expit 0, expit 0], [1 - expit 1, expit 1]],
           [[1 - expit 0, expit 0], [1 - expit 1, expit 1]]]"
  by (simp_all add: run_all_def statements_unfold fresh_kernel_def evaluation
      example_files_simps example_tables example_sklearn_def)

lemma example_run_completes:
  "run_all example_sklearn example_files g =
     (fst (run_all example_sklearn example_files g), None)"
  using example_run(1) [of g] by (simp add: prod_eq_iff)

theorem written_index_is_test_index_witness:
  "run_all example_sklearn example_files (Entropy 0) =
     (fst (run_all example_sklearn example_files (Entropy 0)), None) \<and>
   (\<exists>d. files (fst (run_all example_sklearn example_files (Entropy 0))) OUTPUT_DATA_PATH
           = Some d \<and> index d = [4, 5]) \<and>
   index example_test_features = [4, 5]"
  using written_index_is_test_index
          [OF example_run_completes [of "Entropy 0"]]
  by (auto simp add: example_files_simps example_run_completes [symmetric]
      example_test_features_def)

section \<open>Nothing is written when the test index assertion fails\<close>

lemma states_append:
  "exec cs s = (t, None) \<Longrightarrow> set (states (cs @ ds) s) = set (states cs s) \<union> set (states ds t)"
proof (induction cs arbitrary: s)
  case Nil
  then show ?case by (cases ds) auto
next
  case (Cons c cs)
  then show ?case by (cases "c s") auto
qed

lemma states_append_cases:
  "set (states (cs @ ds) s) =
     (case exec cs s of
        (t, None) \<Rightarrow> set (states cs s) \<union> set (states ds t)
      | (t, Some e) \<Rightarrow> set (states cs s))"
proof (induction cs arbitrary: s)
  case Nil
  then show ?case by (cases ds) auto
next
  case (Cons c cs)
  then show ?case by (cases "c s") (auto split: prod.splits option.splits)
qed

lemma exec_in_states: "fst (exec cs s) \<in> set (states cs s)"
  by (induction cs arbitrary: s) (auto split: sum.splits)

lemma failed_index_assertion_aborts:
  assumes "exec (training_part L @ test_part L) (fresh_kernel fs g) = (s, None)"
    and "test_features_df s = Some t" and "submission_df s = Some d"
    and "index t \<noteq> index d"
  shows "run_all L fs g = (s, Some AssertionError) \<and>
         files s = fs \<and> fs SUBMISSION_FORMAT = Some d \<and>
         (\<forall>u \<in> set (states (statements L) (fresh_kernel fs g)).
            files u = fs \<and> (submission_df u = None \<or> submission_df u = Some d))"
proof -
  have stmts: "statements L = (training_part L @ test_part L) @ (submission_cell @ [write_submission])"
    by (simp add: statements_def)
  have fails: "assert_test_index s = Inl AssertionError"
    using assms(2-4)
    by (simp add: assert_test_index_def and_then_def var_def assert_array_equal_def)
  then have suffix: "exec (submission_cell @ [write_submission]) s = (s, Some AssertionError)"
    and suffix_states: "states (submission_cell @ [write_submission]) s = [s]"
    by (simp_all add: submission_cell_def)
  have "exec ((training_part L @ test_part L) @ (submission_cell @ [write_submission]))
          (fresh_kernel fs g) =
        (case exec (training_part L @ test_part L) (fresh_kernel fs g) of
           (s', None) \<Rightarrow> exec (submission_cell @ [write_submission]) s'
         | (s', Some e) \<Rightarrow> (s', Some e))"
    by (rule exec_append)
  also have "\<dots> = exec (submission_cell @ [write_submission]) s"
    by (simp only: assms(1) prod.case option.case)
  finally have "exec ((training_part L @ test_part L) @ (submission_cell @ [write_submission]))
          (fresh_kernel fs g) = (s, Some AssertionError)"
    by (simp only: suffix)
  then have run: "run_all L fs g = (s, Some AssertionError)"
    by (simp only: run_all_def stmts)
  obtain t' d' where s: "files s = fs" "fs SUBMISSION_FORMAT = Some d'" "submission_df s = Some d'"
    using before_submission_cell [OF assms(1)] by blast
  then have tpl: "fs SUBMISSION_FORMAT = Some d" using assms(3) by simp
  have "files u = fs \<and> (submission_df u = None \<or> submission_df u = Some d)"
    if "u \<in> set (states (statements L) (fresh_kernel fs g))" for u
  proof -
    have "set (states (statements L) (fresh_kernel fs g)) =
            set (states (training_part L @ test_part L) (fresh_kernel fs g)) \<union> {s}"
      by (simp only: stmts states_append [OF assms(1)] suffix_states) simp
    moreover have "s \<in> set (states (training_part L @ test_part L) (fresh_kernel fs g))"
      using exec_in_states [of "training_part L @ test_part L" "fresh_kernel fs g"] assms(1)
      by simp
    ultimately have "u \<in> set (states (training_part L @ test_part L) (fresh_kernel fs g))"
      using that by auto
    then have "untouched fs u"
      using states_invariant [of u _ _ "untouched fs"] fresh_kernel_untouched untouched_step
      by blast
    then show ?thesis using tpl by (auto simp add: untouched_def)
  qed
  then show ?thesis using run s(1) tpl by blast
qed

lemma changes_only_after_assertion:
  assumes "u \<in> set (states (statements L) (fresh_kernel fs g))"
  shows "untouched fs u \<or>
         (\<exists>t d. fs TEST_SET_FEATURES = Some t \<and> fs SUBMISSION_FORMAT = Some d \<and>
                index t = index d)"
proof -
  let ?pre = "training_part L @ test_part L"
  let ?post = "submission_cell @ [write_submission]"
  let ?s0 = "fresh_kernel fs g"
  have stmts: "statements L = ?pre @ ?post"
    by (simp add: statements_def)
  have before: "untouched fs v" if "v \<in> set (states ?pre ?s0)" for v
    using states_invariant [OF that, of "untouched fs"] fresh_kernel_untouched untouched_step
    by blast
  show ?thesis
  proof (cases "u \<in> set (states ?pre ?s0)")
    case True
    then show ?thesis using before by simp
  next
    case False
    obtain w e where ex: "exec ?pre ?s0 = (w, e)" by (cases "exec ?pre ?s0")
    have mem: "u \<in> set (states (?pre @ ?post) ?s0)"
      using assms by (simp only: stmts)
    have reached: "e = None \<and> u \<in> set (states ?post w)"
      using mem False ex
      by (cases e) (simp_all only: states_append_cases [of ?pre] prod.case option.case Un_iff,
          simp_all)
    then have pre: "exec ?pre ?s0 = (w, None)" using ex by simp
    obtain t d where w: "fs TEST_SET_FEATURES = Some t" "test_features_df w = Some t"
      "fs SUBMISSION_FORMAT = Some d" "submission_df w = Some d"
      using before_submission_cell [OF pre] by blast
    have "w \<in> set (states ?pre ?s0)"
      using exec_in_states [of ?pre ?s0] pre by simp
    then have "u \<noteq> w" using False by auto
    have "index t = index d"
    proof (rule ccontr)
      assume "index t \<noteq> index d"
      then have "assert_test_index w = Inl AssertionError"
        using w by (simp add: assert_test_index_def and_then_def var_def assert_array_equal_def)
      then have "states ?post w = [w]"
        by (simp add: submission_cell_def)
      then show False using reached \<open>u \<noteq> w\<close> by simp
    qed
    then show ?thesis using w by blast
  qed
qed

text \<open>
  Claim C10. When the run reaches the submission cell with a test index that differs from
  the index of the submission format, it stops there with AssertionError. In the state it
  stops in, and in every state before, the files are the files the run started with (so
  no submission file has been written) and \<^verbatim>\<open>submission_df\<close>, once loaded, is the
  submission format as the file holds it. And in every run, a state in which a file has
  been written or \<^verbatim>\<open>submission_df\<close> differs from the loaded submission format comes
  only after the assertion succeeded: the two indexes are then equal.
\<close>

theorem failed_index_assertion_writes_nothing:
  "(exec (training_part L @ test_part L) (fresh_kernel fs g) = (s, None) \<and>
    test_features_df s = Some t \<and> submission_df s = Some d \<and> index t \<noteq> index d \<longrightarrow>
      run_all L fs g = (s, Some AssertionError) \<and>
      files s = fs \<and> fs SUBMISSION_FORMAT = Some d \<and>
      (\<forall>u \<in> set (states (statements L) (fresh_kernel fs g)).
         files u = fs \<and> (submission_df u = None \<or> submission_df u = Some d))) \<and>
   (\<forall>u \<in> set (states (statements L) (fresh_kernel fs g)).
      files u \<noteq> fs \<or>
      (submission_df u \<noteq> None \<and> submission_df u \<noteq> fs SUBMISSION_FORMAT) \<longrightarrow>
      (\<exists>t d. fs TEST_SET_FEATURES = Some t \<and> fs SUBMISSION_FORMAT = Some d \<and>
             index t = index d))"
proof (intro conjI impI ballI)
  fix u
  assume "u \<in> set (states (statements L) (fresh_kernel fs g))"
    and "files u \<noteq> fs \<or>
         (submission_df u \<noteq> None \<and> submission_df u \<noteq> fs SUBMISSION_FORMAT)"
  then show "\<exists>t d. fs TEST_SET_FEATURES = Some t \<and> fs SUBMISSION_FORMAT = Some d \<and>
               index t = index d"
    using changes_only_after_assertion [of u L fs g] by (auto simp add: untouched_def)
next
  assume "exec (training_part L @ test_part L) (fresh_kernel fs g) = (s, None) \<and>
          test_features_df s = Some t \<and> submission_df s = Some d \<and> index t \<noteq> index d"
  then have *: "run_all L fs g = (s, Some AssertionError) \<and>
         files s = fs \<and> fs SUBMISSION_FORMAT = Some d \<and>
         (\<forall>u \<in> set (states (statements L) (fresh_kernel fs g)).
            files u = fs \<and> (submission_df u = None \<or> submission_df u = Some d))"
    using failed_index_assertion_aborts [of L fs g s t d] by blast
  from * show "run_all L fs g = (s, Some AssertionError)" by blast
  from * show "files s = fs" by blast
  from * show "fs SUBMISSION_FORMAT = Some d" by blast
  fix u
  assume "u \<in> set (states (statements L) (fresh_kernel fs g))"
  with * show "files u = fs" and "submission_df u = None \<or> submission_df u = Some d"
    by blast+
qed

lemma example_files_reordered_simps:
  "example_files_reordered TRAINING_SET_FEATURES = Some example_features"
  "example_files_reordered TRAINING_SET_LABELS = Some example_labels"
  "example_files_reordered TEST_SET_FEATURES = Some example_test_features"
  "example_files_reordered SUBMISSION_FORMAT =
     Some (example_submission_format\<lparr>index := [5, 4]\<rparr>)"
  "example_files_reordered OUTPUT_DATA_PATH = None"
  by (simp_all add: example_files_reordered_def example_files_def TRAINING_SET_FEATURES_def
      TRAINING_SET_LABELS_def TEST_SET_FEATURES_def SUBMISSION_FORMAT_def OUTPUT_DATA_PATH_def)

lemma example_reordered_run:
  "snd (exec (training_part example_sklearn @ test_part example_sklearn)
          (fresh_kernel example_files_reordered g)) = None"
  "test_features_df (fst (exec (training_part example_sklearn @ test_part example_sklearn)
          (fresh_kernel example_files_reordered g))) = Some example_test_features"
  "submission_df (fst (exec (training_part example_sklearn @ test_part example_sklearn)
          (fresh_kernel example_files_reordered g))) =
     Some (example_submission_format\<lparr>index := [5, 4]\<rparr>)"
  by (simp_all add: training_part_unfold test_part_def fresh_kernel_def evaluation
      example_files_reordered_simps example_tables example_sklearn_def)

theorem failed_index_assertion_writes_nothing_witness:
  "snd (run_all example_sklearn example_files_reordered (Entropy 0)) = Some AssertionError \<and>
   files (fst (run_all example_sklearn example_files_reordered (Entropy 0))) =
     example_files_reordered \<and>
   files (fst (run_all example_sklearn example_files_reordered (Entropy 0)))
     OUTPUT_DATA_PATH = None \<and>
   submission_df (fst (run_all example_sklearn example_files_reordered (Entropy 0))) =
     example_files_reordered SUBMISSION_FORMAT \<and>
   index example_test_features \<noteq> index (example_submission_format\<lparr>index := [5, 4]\<rparr>)"
proof -
  let ?s = "fst (exec (training_part example_sklearn @ test_part example_sklearn)
                   (fresh_kernel example_files_reordered (Entropy 0)))"
  have reach: "exec (training_part example_sklearn @ test_part example_sklearn)
                 (fresh_kernel example_files_reordered (Entropy 0)) = (?s, None)"
    using example_reordered_run(1) [of "Entropy 0"] by (simp add: prod_eq_iff)
  have differ: "index example_test_features \<noteq> index (example_submission_format\<lparr>index := [5, 4]\<rparr>)"
    by (simp add: example_test_features_def)
  show ?thesis
    using failed_index_assertion_writes_nothing
            [of example_sklearn example_files_reordered "Entropy 0" ?s example_test_features
                "example_submission_format\<lparr>index := [5, 4]\<rparr>"]
      reach example_reordered_run(2,3) [of "Entropy 0"] differ
    by (simp add: example_files_reordered_simps)
qed

section \<open>The written file has the schema of the submission format\<close>

lemma replace_names:
  "map fst (map (\<lambda>(n, c). if n = k then (n, v) else (n, c)) xs) = map fst xs"
  by (induction xs) auto

lemma replace_map_of_same:
  "k \<in> fst ` set xs \<Longrightarrow>
   map_of (map (\<lambda>(n, c). if n = k then (n, v) else (n, c)) xs) k = Some v"
  by (induction xs) auto

lemma replace_map_of_other:
  "k' \<noteq> k \<Longrightarrow>
   map_of (map (\<lambda>(n, c). if n = k then (n, v) else (n, c)) xs) k' = map_of xs k'"
  by (induction xs) auto

lemma replace_nth_other:
  "i < length xs \<Longrightarrow> fst (xs ! i) \<noteq> k \<Longrightarrow>
   map (\<lambda>(n, c). if n = k then (n, v) else (n, c)) xs ! i = xs ! i"
  by (cases "xs ! i") simp

lemma setitem_present:
  assumes "n \<in> set (column_names d)" and "setitem d n vs = Inr d'"
  shows "d' = d\<lparr>columns := map (\<lambda>(m, c). if m = n then (m, Num (map Some vs)) else (m, c))
                              (columns d)\<rparr>"
  using assms by (auto simp add: setitem_def split: if_splits)

lemma setitem_absent:
  assumes "n \<notin> set (column_names d)" and "length vs = length (index d)"
  shows "setitem d n vs = Inr (d\<lparr>columns := columns d @ [(n, Num (map Some vs))]\<rparr>)"
  using assms by (simp add: setitem_def)

text \<open>
  Claim C5. Let the submission format be the competition's template, that is, a frame
  that has the two probability columns \<^verbatim>\<open>h1n1_vaccine\<close> and \<^verbatim>\<open>seasonal_vaccine\<close> the
  notebook assigns to. Then whenever the run reaches its end, the written frame has the
  template's key column (the same index name), the template's index (the same rows in the
  same order) and the template's column names in the template's order; every column other
  than the two probability columns is the template's column, unchanged; the two
  probability columns hold the second columns of the two test probability matrices; and
  no file other than the output file has changed. (The lemma \<open>setitem_absent\<close> records
  what pandas does with a name the frame lacks: it appends the column.)
\<close>

theorem submission_keeps_template_schema:
  assumes "run_all L fs g = (s, None)"
    and "fs SUBMISSION_FORMAT = Some tpl"
    and "''h1n1_vaccine'' \<in> set (column_names tpl)"
    and "''seasonal_vaccine'' \<in> set (column_names tpl)"
  shows "\<exists>d pr a b.
           files s OUTPUT_DATA_PATH = Some d \<and>
           index_name d = index_name tpl \<and> index d = index tpl \<and>
           column_names d = column_names tpl \<and>
           (\<forall>i < length (columns tpl).
              fst (columns tpl ! i) \<notin> {''h1n1_vaccine'', ''seasonal_vaccine''} \<longrightarrow>
              columns d ! i = columns tpl ! i) \<and>
           test_probas s = Some pr \<and>
           second_column pr 0 = Inr a \<and> second_column pr 1 = Inr b \<and>
           map_of (columns d) ''h1n1_vaccine'' = Some (Num (map Some a)) \<and>
           map_of (columns d) ''seasonal_vaccine'' = Some (Num (map Some b)) \<and>
           (\<forall>p. p \<noteq> OUTPUT_DATA_PATH \<longrightarrow> files s p = fs p)"
proof -
  obtain u where pre: "exec (training_part L @ test_part L) (fresh_kernel fs g) = (u, None)"
    and post: "exec (submission_cell @ [write_submission]) u = (s, None)"
    using assms(1) by (auto simp add: run_all_None)
  have u: "files u = fs" "submission_df u = Some tpl"
    using before_submission_cell [OF pre] assms(2) by auto
  obtain pr a b d1 d2 where pr: "test_probas u = Some pr"
    and a: "second_column pr 0 = Inr a" and b: "second_column pr 1 = Inr b"
    and set1: "setitem tpl ''h1n1_vaccine'' a = Inr d1"
    and set2: "setitem d1 ''seasonal_vaccine'' b = Inr d2"
    and s: "s = u\<lparr>submission_df := Some d2, files := to_csv (files u) OUTPUT_DATA_PATH d2\<rparr>"
    using submission_cell_and_write [OF post] u by auto
  let ?A = "Num (map Some a)" and ?B = "Num (map Some b)"
  let ?r1 = "\<lambda>(m, c). if m = ''h1n1_vaccine'' then (m, ?A) else (m, c)"
  let ?r2 = "\<lambda>(m, c). if m = ''seasonal_vaccine'' then (m, ?B) else (m, c)"
  have d1: "d1 = tpl\<lparr>columns := map ?r1 (columns tpl)\<rparr>"
    using setitem_present [OF assms(3) set1] .
  have cols1: "columns d1 = map ?r1 (columns tpl)"
    by (simp add: d1)
  have names1: "column_names d1 = column_names tpl"
    by (simp only: column_names_def cols1 replace_names)
  have d2: "d2 = d1\<lparr>columns := map ?r2 (columns d1)\<rparr>"
    using setitem_present [OF _ set2] assms(4) names1 by simp
  have cols: "columns d2 = map ?r2 (map ?r1 (columns tpl))"
    by (simp add: d2 d1)
  have "column_names d2 = column_names tpl"
    by (simp only: column_names_def cols replace_names)
  moreover have "index_name d2 = index_name tpl" "index d2 = index tpl"
    by (simp_all add: d2 d1)
  moreover have "columns d2 ! i = columns tpl ! i"
    if "i < length (columns tpl)"
      and "fst (columns tpl ! i) \<notin> {''h1n1_vaccine'', ''seasonal_vaccine''}" for i
  proof -
    have "map ?r1 (columns tpl) ! i = columns tpl ! i"
      using that by (intro replace_nth_other) auto
    moreover have "map ?r2 (map ?r1 (columns tpl)) ! i = map ?r1 (columns tpl) ! i"
      using that calculation by (intro replace_nth_other) auto
    ultimately show ?thesis by (simp add: cols)
  qed
  moreover have "map_of (columns d2) ''h1n1_vaccine'' = Some ?A"
  proof -
    have "map_of (columns d2) ''h1n1_vaccine'' = map_of (map ?r1 (columns tpl)) ''h1n1_vaccine''"
      unfolding cols by (rule replace_map_of_other) simp
    also have "\<dots> = Some ?A"
      using assms(3) by (intro replace_map_of_same) (simp add: column_names_def)
    finally show ?thesis .
  qed
  moreover have "map_of (columns d2) ''seasonal_vaccine'' = Some ?B"
  proof -
    have "''seasonal_vaccine'' \<in> set (map fst (map ?r1 (columns tpl)))"
      using assms(4) by (simp only: replace_names column_names_def)
    then have "''seasonal_vaccine'' \<in> fst ` set (map ?r1 (columns tpl))"
      by (simp only: set_map)
    then show ?thesis
      unfolding cols by (rule replace_map_of_same)
  qed
  moreover have "files s OUTPUT_DATA_PATH = Some d2" "test_probas s = Some pr"
    "\<forall>p. p \<noteq> OUTPUT_DATA_PATH \<longrightarrow> files s p = fs p"
    using s u pr by (simp_all add: to_csv_def)
  ultimately show ?thesis using a b by blast
qed

theorem submission_keeps_template_schema_witness:
  "run_all example_sklearn example_files (Entropy 0) =
     (fst (run_all example_sklearn example_files (Entropy 0)), None) \<and>
   example_files SUBMISSION_FORMAT = Some example_submission_format \<and>
   column_names example_submission_format = [''h1n1_vaccine'', ''seasonal_vaccine''] \<and>
   (\<exists>d. files (fst (run_all example_sklearn example_files (Entropy 0))) OUTPUT_DATA_PATH
           = Some d \<and>
        index_name d = ''respondent_id'' \<and> index d = [4, 5] \<and>
        column_names d = [''h1n1_vaccine'', ''seasonal_vaccine''])"
proof -
  have names: "column_names example_submission_format = [''h1n1_vaccine'', ''seasonal_vaccine'']"
    by (simp add: column_names_def example_submission_format_def)
  have "''h1n1_vaccine'' \<in> set (column_names example_submission_format)"
    and "''seasonal_vaccine'' \<in> set (column_names example_submission_format)"
    by (simp_all add: names)
  from submission_keeps_template_schema
         [OF example_run_completes [of "Entropy 0"] example_files_simps(4) this]
  obtain d where "files (fst (run_all example_sklearn example_files (Entropy 0)))
                    OUTPUT_DATA_PATH = Some d"
    and "index_name d = index_name example_submission_format"
    and "index d = index example_submission_format"
    and "column_names d = column_names example_submission_format"
    by blast
  then show ?thesis
    using example_run_completes [of "Entropy 0"] names
    by (simp add: example_files_simps example_submission_format_def)
qed

section \<open>The training frames are never changed\<close>

text \<open>What a statement that does not raise does to the variables and files.\<close>

lemma load_effects:
  "load_features u = Inr v \<Longrightarrow>
     \<exists>t. files u TRAINING_SET_FEATURES = Some t \<and> v = u\<lparr>features_df := Some t\<rparr>"
  "load_labels u = Inr v \<Longrightarrow>
     \<exists>t. files u TRAINING_SET_LABELS = Some t \<and> v = u\<lparr>labels_df := Some t\<rparr>"
  "load_test_features u = Inr v \<Longrightarrow>
     \<exists>t. files u TEST_SET_FEATURES = Some t \<and> v = u\<lparr>test_features_df := Some t\<rparr>"
  "load_submission_format u = Inr v \<Longrightarrow>
     \<exists>t. files u SUBMISSION_FORMAT = Some t \<and> v = u\<lparr>submission_df := Some t\<rparr>"
  by (auto simp add: load_features_def load_labels_def load_test_features_def
      load_submission_format_def and_then_Inr_iff read_csv_Inr_iff)

lemma assert_effects:
  "assert_train_index u = Inr v \<Longrightarrow> v = u"
  "assert_test_index u = Inr v \<Longrightarrow> v = u"
  by (auto simp add: assert_train_index_def assert_test_index_def and_then_Inr_iff)

lemma training_effects:
  "join_features_labels u = Inr v \<Longrightarrow> \<exists>j. v = u\<lparr>joined_df := Some j\<rparr>"
  "assign_numeric_cols u = Inr v \<Longrightarrow> \<exists>ns. v = u\<lparr>numeric_cols := Some ns\<rparr>"
  "build_full_pipeline u = Inr v \<Longrightarrow> \<exists>p. v = u\<lparr>full_pipeline := Some p\<rparr>"
  "fit_on_train L u = Inr v \<Longrightarrow> \<exists>p. v = u\<lparr>full_pipeline := Some p\<rparr>"
  "fit_on_full L u = Inr v \<Longrightarrow> \<exists>p. v = u\<lparr>full_pipeline := Some p\<rparr>"
  "predict_eval L u = Inr v \<Longrightarrow> \<exists>pr. v = u\<lparr>preds := Some pr\<rparr>"
  "build_y_preds u = Inr v \<Longrightarrow> \<exists>t. v = u\<lparr>y_preds := Some t\<rparr>"
  "predict_test L u = Inr v \<Longrightarrow> \<exists>pr. v = u\<lparr>test_probas := Some pr\<rparr>"
  by (auto simp add: join_features_labels_def assign_numeric_cols_def build_full_pipeline_def
      fit_on_train_def fit_on_full_def predict_eval_def build_y_preds_def predict_test_def
      and_then_Inr_iff split: if_splits)

lemma split_effect:
  "split_train_eval L u = Inr v \<Longrightarrow>
     \<exists>a b c d. v = u\<lparr>X_train := Some a, X_eval := Some b, y_train := Some c, y_eval := Some d\<rparr>"
  by (auto simp add: split_train_eval_def and_then_Inr_iff)

lemma submission_effects:
  "assign_h1n1 u = Inr v \<Longrightarrow> \<exists>d. v = u\<lparr>submission_df := Some d\<rparr>"
  "assign_seasonal u = Inr v \<Longrightarrow> \<exists>d. v = u\<lparr>submission_df := Some d\<rparr>"
  "write_submission u = Inr v \<Longrightarrow>
     \<exists>d. submission_df u = Some d \<and> v = u\<lparr>files := (files u)(OUTPUT_DATA_PATH \<mapsto> d)\<rparr>"
  by (auto simp add: assign_h1n1_def assign_seasonal_def write_submission_def
      and_then_Inr_iff var_Inr_iff to_csv_def)

lemmas statement_effects =
  load_effects assert_effects training_effects split_effect submission_effects

lemma features_df_frame:
  assumes "c \<in> set (statements L)" and "c u = Inr v"
  shows "features_df v = features_df u \<or> features_df v = files u TRAINING_SET_FEATURES"
  using assms by (auto simp add: statements_unfold dest!: statement_effects)

lemma labels_df_frame:
  assumes "c \<in> set (statements L)" and "c u = Inr v"
  shows "labels_df v = labels_df u \<or> labels_df v = files u TRAINING_SET_LABELS"
  using assms by (auto simp add: statements_unfold dest!: statement_effects)

lemma files_frame:
  assumes "c \<in> set (statements L)" and "c u = Inr v"
  shows "files v = files u \<or>
         (\<exists>d. submission_df v = Some d \<and> files v = (files u)(OUTPUT_DATA_PATH \<mapsto> d))"
  using assms by (auto simp add: statements_unfold dest!: statement_effects)

lemma training_frames_frame:
  assumes "c \<in> set (drop 2 (statements L))" and "c u = Inr v"
  shows "features_df v = features_df u \<and> labels_df v = labels_df u"
  using assms by (auto simp add: statements_unfold dest!: statement_effects)

lemma inputs_kept_step:
  assumes "c \<in> set (statements L)" and "inputs_kept fs u" and "c u = Inr v"
  shows "inputs_kept fs v"
proof -
  have files: "p = OUTPUT_DATA_PATH \<or> files v p = fs p" for p
  proof (cases "p = OUTPUT_DATA_PATH")
    case True
    then show ?thesis by simp
  next
    case False
    have "files u p = fs p"
      using assms(2) False unfolding inputs_kept_def by blast
    moreover have "files v p = files u p"
      using files_frame [OF assms(1,3)] False by auto
    ultimately show ?thesis by simp
  qed
  have "files u TRAINING_SET_FEATURES = fs TRAINING_SET_FEATURES"
    and "files u TRAINING_SET_LABELS = fs TRAINING_SET_LABELS"
    using assms(2) paths_distinct by (auto simp add: inputs_kept_def)
  then have "features_df v = None \<or> features_df v = fs TRAINING_SET_FEATURES"
    and "labels_df v = None \<or> labels_df v = fs TRAINING_SET_LABELS"
    using features_df_frame [OF assms(1,3)] labels_df_frame [OF assms(1,3)] assms(2)
    by (auto simp add: inputs_kept_def)
  then show ?thesis using files by (simp add: inputs_kept_def)
qed

lemma training_loaded_step:
  assumes "c \<in> set (drop 2 (statements L))" and "training_loaded fs u" and "c u = Inr v"
  shows "training_loaded fs v"
  using training_frames_frame [OF assms(1,3)] assms(2) by (simp add: training_loaded_def)

lemma files_kept_before_write:
  assumes "c \<in> set (training_part L @ test_part L @ submission_cell)" and "c u = Inr v"
  shows "files v = files u"
  using assms
  by (auto simp add: training_part_unfold test_part_def submission_cell_def
      dest!: statement_effects)

lemma states_of_write:
  assumes "u \<in> set (states [write_submission] t)"
  shows "u = t \<or> (\<exists>d. submission_df u = Some d \<and> files u = (files t)(OUTPUT_DATA_PATH \<mapsto> d))"
proof (cases "write_submission t")
  case (Inl e)
  then show ?thesis using assms by simp
next
  case (Inr t')
  then show ?thesis using assms submission_effects(3) [OF Inr] by auto
qed

lemma written_only_by_write:
  assumes "u \<in> set (states (statements L) (fresh_kernel fs g))"
  shows "files u = fs \<or>
         (\<exists>d. submission_df u = Some d \<and> files u = fs(OUTPUT_DATA_PATH \<mapsto> d))"
proof -
  let ?cs = "training_part L @ test_part L @ submission_cell"
  let ?s0 = "fresh_kernel fs g"
  have stmts: "statements L = ?cs @ [write_submission]"
    by (simp add: statements_def)
  have before: "files v = fs" if "v \<in> set (states ?cs ?s0)" for v
    using states_invariant [OF that, of "\<lambda>v. files v = fs"] files_kept_before_write [of _ L]
    by (simp add: fresh_kernel_def)
  show ?thesis
  proof (cases "u \<in> set (states ?cs ?s0)")
    case True
    then show ?thesis using before by simp
  next
    case False
    obtain t e where ex: "exec ?cs ?s0 = (t, e)" by (cases "exec ?cs ?s0")
    have mem: "u \<in> set (states (?cs @ [write_submission]) ?s0)"
      using assms by (simp only: stmts)
    have "e = None \<and> u \<in> set (states [write_submission] t)"
      using mem False ex
      by (cases e) (simp_all only: states_append_cases [of ?cs] prod.case option.case Un_iff,
          simp_all)
    moreover have "files t = fs"
      using before [of t] exec_in_states [of ?cs ?s0] ex by simp
    ultimately show ?thesis
      using states_of_write [of u t] by auto
  qed
qed

lemma states_complete:
  "exec cs s = (t, None) \<Longrightarrow>
   length (states cs s) = Suc (length cs) \<and> states cs s ! length cs = t"
proof (induction cs arbitrary: s)
  case Nil
  then show ?case by simp
next
  case (Cons c cs)
  then show ?case by (cases "c s") auto
qed

lemma states_after_two:
  assumes "2 \<le> i" and "i < length (states (c1 # c2 # cs) s0)"
  shows "\<exists>s1 s2. c1 s0 = Inr s1 \<and> c2 s1 = Inr s2 \<and>
           states (c1 # c2 # cs) s0 ! i \<in> set (states cs s2)"
proof (cases "c1 s0")
  case (Inl e)
  then show ?thesis using assms by simp
next
  case s1: (Inr s1)
  show ?thesis
  proof (cases "c2 s1")
    case (Inl e)
    then show ?thesis using assms s1 by simp
  next
    case s2: (Inr s2)
    obtain j where j: "i = Suc (Suc j)"
      using assms(1) by (metis Suc_le_D numeral_2_eq_2 add_2_eq_Suc le_Suc_ex)
    then have "j < length (states cs s2)"
      using assms(2) s1 s2 by simp
    then show ?thesis using s1 s2 j by simp
  qed
qed

text \<open>
  Claim C8. Take the \<open>i\<close>-th state of the run, counting the fresh kernel as state 0.
  In it \<^verbatim>\<open>features_df\<close> and \<^verbatim>\<open>labels_df\<close> are either not assigned yet or hold what
  their files hold; from state 2 on, that is at every point after the two frames are
  loaded, both are assigned and hold what their files hold. No file other than the output
  file ever differs from the files the run started with, and the files are either all as
  at the start or differ by the output file alone, which then holds \<^verbatim>\<open>submission_df\<close>.
\<close>

theorem training_frames_are_never_changed:
  assumes "i < length (states (statements L) (fresh_kernel fs g))"
    and "u = states (statements L) (fresh_kernel fs g) ! i"
  shows "(features_df u = None \<or> features_df u = fs TRAINING_SET_FEATURES) \<and>
         (labels_df u = None \<or> labels_df u = fs TRAINING_SET_LABELS) \<and>
         (2 \<le> i \<longrightarrow>
            (\<exists>F Y. fs TRAINING_SET_FEATURES = Some F \<and> fs TRAINING_SET_LABELS = Some Y \<and>
                   features_df u = Some F \<and> labels_df u = Some Y)) \<and>
         (\<forall>p. p \<noteq> OUTPUT_DATA_PATH \<longrightarrow> files u p = fs p) \<and>
         (files u = fs \<or>
            (\<exists>d. submission_df u = Some d \<and> files u = fs(OUTPUT_DATA_PATH \<mapsto> d)))"
proof -
  let ?s0 = "fresh_kernel fs g"
  have mem: "u \<in> set (states (statements L) ?s0)"
    using assms by simp
  have "inputs_kept fs ?s0"
    by (simp add: inputs_kept_def fresh_kernel_def)
  then have kept: "inputs_kept fs u"
    using states_invariant [OF mem, of "inputs_kept fs"] inputs_kept_step by blast
  have loaded: "training_loaded fs u" if two: "2 \<le> i"
  proof -
    let ?rest = "drop 2 (statements L)"
    have stmts: "statements L = load_features # load_labels # ?rest"
      by (simp add: statements_unfold)
    obtain s1 s2 where s1: "load_features ?s0 = Inr s1" and s2: "load_labels s1 = Inr s2"
      and u: "u \<in> set (states ?rest s2)"
      using states_after_two [OF two, of load_features load_labels ?rest ?s0] assms
      by (metis stmts)
    have "training_loaded fs s2"
      using load_effects(1) [OF s1] load_effects(2) [OF s2]
      by (auto simp add: training_loaded_def fresh_kernel_def)
    then show ?thesis
      using states_invariant [OF u, of "training_loaded fs"] training_loaded_step by blast
  qed
  show ?thesis
    using kept loaded written_only_by_write [OF mem]
    unfolding inputs_kept_def training_loaded_def by blast
qed

theorem training_frames_are_never_changed_witness:
  "18 < length (states (statements example_sklearn) (fresh_kernel example_files (Entropy 0))) \<and>
   features_df (states (statements example_sklearn) (fresh_kernel example_files (Entropy 0)) ! 18)
     = Some example_features \<and>
   labels_df (states (statements example_sklearn) (fresh_kernel example_files (Entropy 0)) ! 18)
     = Some example_labels \<and>
   files (states (statements example_sklearn) (fresh_kernel example_files (Entropy 0)) ! 18)
     TRAINING_SET_FEATURES = Some example_features \<and>
   (\<exists>d. submission_df
          (states (statements example_sklearn) (fresh_kernel example_files (Entropy 0)) ! 18)
          = Some d \<and>
        files (states (statements example_sklearn) (fresh_kernel example_files (Entropy 0)) ! 18)
          = example_files(OUTPUT_DATA_PATH \<mapsto> d))"
proof -
  let ?sts = "states (statements example_sklearn) (fresh_kernel example_files (Entropy 0))"
  let ?s = "fst (run_all example_sklearn example_files (Entropy 0))"
  have "exec (statements example_sklearn) (fresh_kernel example_files (Entropy 0)) = (?s, None)"
    using example_run_completes [of "Entropy 0"] by (simp add: run_all_def)
  from states_complete [OF this]
  have "length ?sts = Suc (length (statements example_sklearn))"
    and "?sts ! length (statements example_sklearn) = ?s"
    by blast+
  moreover have "length (statements example_sklearn) = 18"
    by (simp add: statements_unfold)
  ultimately have len: "18 < length ?sts" and last: "?sts ! 18 = ?s"
    by (simp_all only: lessI)
  have written: "files (?sts ! 18) \<noteq> example_files"
    using example_run(2) [of "Entropy 0"] example_files_simps(5) last by auto
  show ?thesis
    using training_frames_are_never_changed [OF len refl] written len
    by (simp add: example_files_simps paths_distinct)
qed

section \<open>Two runs on the same files give the same results\<close>

lemma train_test_split_seeded:
  "train_test_split L g X y t (Some n) = train_test_split L g' X y t (Some n)"
  by (simp add: train_test_split_def check_random_state_def Let_def)

lemma lr_fit_lbfgs:
  "solver est = ''lbfgs'' \<Longrightarrow> lr_fit L est g X y = lr_fit L est g' X y"
  by (simp add: lr_fit_def)

lemma multi_output_fit_lbfgs:
  "solver est = ''lbfgs'' \<Longrightarrow> multi_output_fit L est g X ys = multi_output_fit L est g' X ys"
  by (induction ys) (simp_all add: lr_fit_lbfgs [of est L g _ _ g'])

lemma pipeline_fit_lbfgs:
  "solver (estimator p) = ''lbfgs'' \<Longrightarrow> pipeline_fit L g p X y = pipeline_fit L g' p X y"
  by (simp add: pipeline_fit_def multi_output_fit_lbfgs [of "estimator p" L g _ _ g'])

lemma pipeline_fit_estimator:
  "pipeline_fit L g p X y = Inr p' \<Longrightarrow>
   estimator p' = estimator p \<and> transformer_columns p' = transformer_columns p"
  by (auto simp add: pipeline_fit_def and_then_Inr_iff Let_def)

lemma pipeline_effects:
  "build_full_pipeline u = Inr v \<Longrightarrow>
     \<exists>p. full_pipeline v = Some p \<and> estimator p = notebook_estimator"
  "fit_on_train L u = Inr v \<Longrightarrow>
     \<exists>p p'. full_pipeline u = Some p \<and> full_pipeline v = Some p' \<and> estimator p' = estimator p"
  "fit_on_full L u = Inr v \<Longrightarrow>
     \<exists>p p'. full_pipeline u = Some p \<and> full_pipeline v = Some p' \<and> estimator p' = estimator p"
  by (auto simp add: build_full_pipeline_def fit_on_train_def fit_on_full_def
      and_then_Inr_iff var_Inr_iff dest: pipeline_fit_estimator)

lemma full_pipeline_frame:
  assumes "c \<in> set (statements L)" and "c u = Inr v"
    and "c \<noteq> build_full_pipeline" and "c \<noteq> fit_on_train L" and "c \<noteq> fit_on_full L"
  shows "full_pipeline v = full_pipeline u"
  using assms
  by (auto simp add: statements_unfold
      dest!: load_effects assert_effects split_effect submission_effects
        training_effects(1,2,6,7,8))

lemma lbfgs_pipeline_step:
  assumes "c \<in> set (statements L)" and "lbfgs_pipeline u" and "c u = Inr v"
  shows "lbfgs_pipeline v"
proof -
  consider "c = build_full_pipeline" | "c = fit_on_train L" | "c = fit_on_full L"
    | "c \<noteq> build_full_pipeline" "c \<noteq> fit_on_train L" "c \<noteq> fit_on_full L"
    by blast
  then show ?thesis
  proof cases
    case 1
    then show ?thesis
      using pipeline_effects(1) [of u v] assms(3)
      by (auto simp add: lbfgs_pipeline_def notebook_estimator_def)
  next
    case 2
    then show ?thesis
      using pipeline_effects(2) [of L u v] assms(2,3) by (auto simp add: lbfgs_pipeline_def)
  next
    case 3
    then show ?thesis
      using pipeline_effects(3) [of L u v] assms(2,3) by (auto simp add: lbfgs_pipeline_def)
  next
    case 4
    then show ?thesis
      using full_pipeline_frame [OF assms(1,3)] assms(2) by (simp add: lbfgs_pipeline_def)
  qed
qed

lemma and_then_map_sum:
  "(\<And>x. k x = map_sum id f (h x)) \<Longrightarrow> and_then r k = map_sum id f (and_then r h)"
  by (cases r) (simp_all add: and_then_def)

lemma entropy_commutes_plain:
  "load_features (u\<lparr>np_random := g\<rparr>) = map_sum id (\<lambda>v. v\<lparr>np_random := g\<rparr>) (load_features u)"
  "load_labels (u\<lparr>np_random := g\<rparr>) = map_sum id (\<lambda>v. v\<lparr>np_random := g\<rparr>) (load_labels u)"
  "assert_train_index (u\<lparr>np_random := g\<rparr>) =
     map_sum id (\<lambda>v. v\<lparr>np_random := g\<rparr>) (assert_train_index u)"
  "join_features_labels (u\<lparr>np_random := g\<rparr>) =
     map_sum id (\<lambda>v. v\<lparr>np_random := g\<rparr>) (join_features_labels u)"
  "assign_numeric_cols (u\<lparr>np_random := g\<rparr>) =
     map_sum id (\<lambda>v. v\<lparr>np_random := g\<rparr>) (assign_numeric_cols u)"
  "build_full_pipeline (u\<lparr>np_random := g\<rparr>) =
     map_sum id (\<lambda>v. v\<lparr>np_random := g\<rparr>) (build_full_pipeline u)"
  "predict_eval L (u\<lparr>np_random := g\<rparr>) = map_sum id (\<lambda>v. v\<lparr>np_random := g\<rparr>) (predict_eval L u)"
  "build_y_preds (u\<lparr>np_random := g\<rparr>) = map_sum id (\<lambda>v. v\<lparr>np_random := g\<rparr>) (build_y_preds u)"
  "load_test_features (u\<lparr>np_random := g\<rparr>) =
     map_sum id (\<lambda>v. v\<lparr>np_random := g\<rparr>) (load_test_features u)"
  "predict_test L (u\<lparr>np_random := g\<rparr>) = map_sum id (\<lambda>v. v\<lparr>np_random := g\<rparr>) (predict_test L u)"
  "load_submission_format (u\<lparr>np_random := g\<rparr>) =
     map_sum id (\<lambda>v. v\<lparr>np_random := g\<rparr>) (load_submission_format u)"
  "assert_test_index (u\<lparr>np_random := g\<rparr>) =
     map_sum id (\<lambda>v. v\<lparr>np_random := g\<rparr>) (assert_test_index u)"
  "assign_h1n1 (u\<lparr>np_random := g\<rparr>) = map_sum id (\<lambda>v. v\<lparr>np_random := g\<rparr>) (assign_h1n1 u)"
  "assign_seasonal (u\<lparr>np_random := g\<rparr>) =
     map_sum id (\<lambda>v. v\<lparr>np_random := g\<rparr>) (assign_seasonal u)"
  "write_submission (u\<lparr>np_random := g\<rparr>) =
     map_sum id (\<lambda>v. v\<lparr>np_random := g\<rparr>) (write_submission u)"
  unfolding statement_defs
  by (simp_all add: and_then_map_sum)

lemma entropy_commutes_split:
  "split_train_eval L (u\<lparr>np_random := g\<rparr>) =
     map_sum id (\<lambda>v. v\<lparr>np_random := g\<rparr>) (split_train_eval L u)"
  unfolding split_train_eval_def
  by (simp add: and_then_map_sum train_test_split_seeded [of L g _ _ _ _ "np_random u"]
      split: prod.splits)

lemma entropy_commutes_fit:
  assumes "lbfgs_pipeline u"
  shows "fit_on_train L (u\<lparr>np_random := g\<rparr>) =
           map_sum id (\<lambda>v. v\<lparr>np_random := g\<rparr>) (fit_on_train L u)"
    and "fit_on_full L (u\<lparr>np_random := g\<rparr>) =
           map_sum id (\<lambda>v. v\<lparr>np_random := g\<rparr>) (fit_on_full L u)"
proof -
  have fit: "pipeline_fit L g p X y = pipeline_fit L (np_random u) p X y"
    if "full_pipeline u = Some p" for p X y
    using assms that pipeline_fit_lbfgs [of p L g X y "np_random u"]
    by (simp add: lbfgs_pipeline_def)
  show "fit_on_train L (u\<lparr>np_random := g\<rparr>) =
           map_sum id (\<lambda>v. v\<lparr>np_random := g\<rparr>) (fit_on_train L u)"
    unfolding fit_on_train_def
    by (cases "full_pipeline u")
      (simp_all add: var_def fit and_then_def split: option.splits sum.splits)
  show "fit_on_full L (u\<lparr>np_random := g\<rparr>) =
           map_sum id (\<lambda>v. v\<lparr>np_random := g\<rparr>) (fit_on_full L u)"
    unfolding fit_on_full_def
    by (cases "full_pipeline u")
      (simp_all add: var_def fit and_then_def split: option.splits sum.splits)
qed

lemma entropy_commutes:
  assumes "c \<in> set (statements L)" and "lbfgs_pipeline u"
  shows "c (u\<lparr>np_random := g\<rparr>) = map_sum id (\<lambda>v. v\<lparr>np_random := g\<rparr>) (c u)"
  using assms(1) entropy_commutes_plain [where u = u and g = g]
    entropy_commutes_split [where L = L and u = u and g = g]
    entropy_commutes_fit [OF assms(2), where L = L and g = g]
  by (auto simp add: statements_unfold)

lemma exec_entropy:
  assumes "set cs \<subseteq> set (statements L)" and "lbfgs_pipeline s"
  shows "exec cs (s\<lparr>np_random := g\<rparr>) =
           (case exec cs s of (t, e) \<Rightarrow> (t\<lparr>np_random := g\<rparr>, e))"
  using assms
proof (induction cs arbitrary: s)
  case Nil
  then show ?case by simp
next
  case (Cons c cs)
  have c: "c \<in> set (statements L)" using Cons.prems(1) by simp
  show ?case
  proof (cases "c s")
    case (Inl e)
    then show ?thesis
      using entropy_commutes [OF c Cons.prems(2), of g] by simp
  next
    case (Inr s')
    have "lbfgs_pipeline s'"
      using lbfgs_pipeline_step [OF c Cons.prems(2) Inr] .
    then have "exec cs (s'\<lparr>np_random := g\<rparr>) =
                 (case exec cs s' of (t, e) \<Rightarrow> (t\<lparr>np_random := g\<rparr>, e))"
      using Cons.IH Cons.prems(1) by simp
    then show ?thesis
      using entropy_commutes [OF c Cons.prems(2), of g] Inr by simp
  qed
qed

lemma unseeded_split_depends_on_generator:
  "train_test_split generator_sklearn (Entropy 0) example_features example_labels (33 / 100) None
   \<noteq> train_test_split generator_sklearn (RandomState 0) example_features example_labels
       (33 / 100) None"
  by (simp add: train_test_split_def generator_sklearn_def check_random_state_def Let_def
      example_features_def example_labels_def iloc_def and_then_def upt_conv_Cons)

text \<open>
  Claim C4. What differs between two runs on the same input files is the state of numpy's
  process-wide generator. The notebook hands \<^verbatim>\<open>train_test_split\<close> the seed
  \<^verbatim>\<open>RANDOM_SEED = 6\<close>, and its \<^verbatim>\<open>LogisticRegression\<close> uses the solver \<^verbatim>\<open>lbfgs\<close>, which
  draws no random numbers. So for every two generator states the two runs end with the
  same error or both without one, and in states that agree in every variable and file:
  the same split, the same fitted pipeline, the same evaluation and test probabilities.
  (Without a seed the split would follow the generator: \<open>unseeded_split_depends_on_generator\<close>.)
\<close>

theorem run_is_determined_by_files_and_seed:
  "snd (run_all L fs g2) = snd (run_all L fs g1) \<and>
   fst (run_all L fs g2) = (fst (run_all L fs g1))\<lparr>np_random := g2\<rparr> \<and>
   X_train (fst (run_all L fs g2)) = X_train (fst (run_all L fs g1)) \<and>
   X_eval (fst (run_all L fs g2)) = X_eval (fst (run_all L fs g1)) \<and>
   y_train (fst (run_all L fs g2)) = y_train (fst (run_all L fs g1)) \<and>
   y_eval (fst (run_all L fs g2)) = y_eval (fst (run_all L fs g1)) \<and>
   full_pipeline (fst (run_all L fs g2)) = full_pipeline (fst (run_all L fs g1)) \<and>
   preds (fst (run_all L fs g2)) = preds (fst (run_all L fs g1)) \<and>
   test_probas (fst (run_all L fs g2)) = test_probas (fst (run_all L fs g1)) \<and>
   files (fst (run_all L fs g2)) = files (fst (run_all L fs g1))"
proof -
  have start: "fresh_kernel fs g2 = (fresh_kernel fs g1)\<lparr>np_random := g2\<rparr>"
    by (simp add: fresh_kernel_def)
  have "lbfgs_pipeline (fresh_kernel fs g1)"
    by (simp add: lbfgs_pipeline_def fresh_kernel_def)
  then have "run_all L fs g2 =
               (case run_all L fs g1 of (t, e) \<Rightarrow> (t\<lparr>np_random := g2\<rparr>, e))"
    unfolding run_all_def start by (intro exec_entropy [of _ L]) simp
  then show ?thesis
    by (cases "run_all L fs g1") simp
qed

section \<open>String columns and the pipeline\<close>

lemma numeric_lookup:
  assumes "distinct (map fst xs)"
  shows "map_of xs n = Some (Num v) \<longleftrightarrow>
         (n, Num v) \<in> set (filter (\<lambda>c. \<not> is_object (snd c)) xs)"
  using assms by (auto simp add: map_of_eq_Some_iff)

lemma map_of_numeric_agree:
  assumes "well_formed X" and "well_formed X'" and "numeric_part X = numeric_part X'"
  shows "map_of (columns X) n = Some (Num v) \<longleftrightarrow> map_of (columns X') n = Some (Num v)"
  using assms numeric_lookup [of "columns X" n v] numeric_lookup [of "columns X'" n v]
  by (simp add: well_formed_def column_names_def numeric_part_def)

lemma numeric_cols_lookup:
  assumes "well_formed X" and "n \<in> set (numeric_cols_of X)"
  shows "\<exists>v. map_of (columns X) n = Some (Num v)"
proof -
  obtain c where c: "(n, c) \<in> set (columns X)" and num: "\<not> is_object c"
    using assms(2) by (auto simp add: numeric_cols_of_def)
  obtain v where "c = Num v"
    using num by (cases c) simp_all
  then show ?thesis
    using c assms(1) by (auto simp add: well_formed_def column_names_def)
qed

lemma select_columns_agree:
  assumes "well_formed X" and "well_formed X'" and "numeric_part X = numeric_part X'"
    and "set ns \<subseteq> set (numeric_cols_of X)"
  shows "select_columns L ns X = select_columns L ns X'"
  using assms(4)
proof (induction ns)
  case Nil
  then show ?case by simp
next
  case (Cons n ns)
  obtain v where v: "map_of (columns X) n = Some (Num v)"
    using numeric_cols_lookup [OF assms(1), of n] Cons.prems by auto
  then have v': "map_of (columns X') n = Some (Num v)"
    using map_of_numeric_agree [OF assms(1-3)] by simp
  have "select_columns L ns X = select_columns L ns X'"
    using Cons by simp
  then show ?case
    by (simp add: v v')
qed

lemma expit_inj: "expit a = expit b \<Longrightarrow> a = b"
proof -
  assume eq: "expit a = expit b"
  have pos: "0 < 1 + exp (- a)" "0 < 1 + exp (- b)"
    by (simp_all add: add_pos_pos)
  have "1 + exp (- a) = 1 + exp (- b)"
    using eq pos unfolding expit_def by (simp add: field_simps)
  then show "a = b" by simp
qed

text \<open>
  Claim C9, as stated, fails. The ColumnTransformer selects by name the columns that were
  numeric in the training features; whether the frame it is applied to holds numbers or
  strings under these names plays no part in the selection. In the test features below
  the column \<^verbatim>\<open>h1n1_concern\<close> has dtype \<^verbatim>\<open>object\<close>: its cells are the strings \<^verbatim>\<open>1_0\<close> and
  \<^verbatim>\<open>2_0\<close>, which pandas does not read as numbers and scikit-learn converts to 10 and 20.
  The two frames have no numeric column at all, so they agree on all numeric columns, and
  the pipeline fitted on the example training data predicts differently for them.
\<close>

theorem object_column_under_a_numeric_name_changes_predictions:
  "well_formed example_test_strings \<and> well_formed example_test_strings_other \<and>
   agree_on_numeric example_test_strings example_test_strings_other \<and>
   pipeline_fit example_sklearn (Entropy 0) example_pipeline example_features example_labels =
     Inr example_fitted_pipeline \<and>
   pipeline_predict_proba example_sklearn example_fitted_pipeline example_test_strings =
     Inr [[[1 - expit 9, expit 9], [1 - expit 19, expit 19]],
          [[1 - expit 9, expit 9], [1 - expit 19, expit 19]]] \<and>
   pipeline_predict_proba example_sklearn example_fitted_pipeline example_test_strings_other =
     Inr [[[1 - expit 19, expit 19], [1 - expit 9, expit 9]],
          [[1 - expit 19, expit 19], [1 - expit 9, expit 9]]] \<and>
   pipeline_predict_proba example_sklearn example_fitted_pipeline example_test_strings \<noteq>
     pipeline_predict_proba example_sklearn example_fitted_pipeline example_test_strings_other"
proof -
  have wf: "well_formed example_test_strings" "well_formed example_test_strings_other"
    by (simp_all add: well_formed_def column_names_def example_test_strings_def
        example_test_strings_other_def)
  have agree: "agree_on_numeric example_test_strings example_test_strings_other"
    by (simp add: agree_on_numeric_def numeric_part_def example_test_strings_def
        example_test_strings_other_def)
  have fit: "pipeline_fit example_sklearn (Entropy 0) example_pipeline example_features
               example_labels = Inr example_fitted_pipeline"
    by (simp add: example_pipeline_def example_fitted_pipeline_def evaluation example_tables
        example_sklearn_def)
  have one: "pipeline_predict_proba example_sklearn example_fitted_pipeline example_test_strings =
     Inr [[[1 - expit 9, expit 9], [1 - expit 19, expit 19]],
          [[1 - expit 9, expit 9], [1 - expit 19, expit 19]]]"
    by (simp add: example_fitted_pipeline_def example_pipeline_def example_test_strings_def
        evaluation example_sklearn_def example_float_def)
  have other: "pipeline_predict_proba example_sklearn example_fitted_pipeline
                 example_test_strings_other =
     Inr [[[1 - expit 19, expit 19], [1 - expit 9, expit 9]],
          [[1 - expit 19, expit 19], [1 - expit 9, expit 9]]]"
    by (simp add: example_fitted_pipeline_def example_pipeline_def
        example_test_strings_other_def evaluation example_sklearn_def example_float_def)
  have "expit 9 \<noteq> expit 19"
    using expit_inj [of 9 19] by auto
  then show ?thesis
    using wf agree fit one other by simp
qed

text \<open>
  Claim C9, amended. Let two frames, as pandas has them, have the same number of rows and
  the same columns of a dtype other than \<^verbatim>\<open>object\<close>, whatever their \<^verbatim>\<open>object\<close> columns
  are, and let every column the pipeline selects be one of these numeric columns. Then
  the notebook computes the same \<^verbatim>\<open>numeric_cols\<close> from either frame, fitting the pipeline
  on either with the same labels gives the same fitted pipeline or the same error, and
  the pipeline returns the same probabilities or the same error for both. The condition
  on the selected columns holds whenever the pipeline is built over the \<^verbatim>\<open>numeric_cols\<close>
  of the frame itself, as the notebook builds it for the training features.
\<close>

theorem object_columns_do_not_reach_the_pipeline:
  assumes "well_formed X" and "well_formed X'" and "agree_on_numeric X X'"
    and "set (transformer_columns p) \<subseteq> set (numeric_cols_of X)"
  shows "numeric_cols_of X = numeric_cols_of X' \<and>
         pipeline_fit L g p X y = pipeline_fit L g p X' y \<and>
         pipeline_predict_proba L p X = pipeline_predict_proba L p X'"
proof -
  have part: "numeric_part X = numeric_part X'" and len: "length (index X) = length (index X')"
    using assms(3) by (simp_all add: agree_on_numeric_def)
  have sel: "select_columns L (transformer_columns p) X =
             select_columns L (transformer_columns p) X'"
    using select_columns_agree [OF assms(1,2) part assms(4)] .
  have pre: "preprocessor_transform L (transformer_columns p) st X =
             preprocessor_transform L (transformer_columns p) st X'" for st
    unfolding preprocessor_transform_def sel len by (rule refl)
  have "numeric_cols_of X = numeric_cols_of X'"
    using part by (simp add: numeric_cols_of_def numeric_part_def)
  moreover have "pipeline_fit L g p X y = pipeline_fit L g p X' y"
    by (simp add: pipeline_fit_def sel pre)
  moreover have "pipeline_predict_proba L p X = pipeline_predict_proba L p X'"
    by (simp add: pipeline_predict_proba_def pre split: option.splits)
  ultimately show ?thesis by simp
qed

theorem object_columns_do_not_reach_the_pipeline_witness:
  "well_formed example_features \<and> well_formed example_features_other \<and>
   agree_on_numeric example_features example_features_other \<and>
   example_features \<noteq> example_features_other \<and>
   transformer_columns example_pipeline = numeric_cols_of example_features \<and>
   numeric_cols_of example_features_other = [''h1n1_concern''] \<and>
   pipeline_fit example_sklearn (Entropy 0) example_pipeline example_features_other
     example_labels = Inr example_fitted_pipeline \<and>
   pipeline_predict_proba example_sklearn example_fitted_pipeline example_features =
     pipeline_predict_proba example_sklearn example_fitted_pipeline example_features_other"
proof -
  have wf: "well_formed example_features" "well_formed example_features_other"
    by (simp_all add: well_formed_def column_names_def example_features_def
        example_features_other_def)
  have agree: "agree_on_numeric example_features example_features_other"
    by (simp add: agree_on_numeric_def numeric_part_def example_features_def
        example_features_other_def)
  have cols: "numeric_cols_of example_features = [''h1n1_concern'']"
    by (simp add: numeric_cols_of_def example_features_def)
  have sub: "set (transformer_columns example_pipeline) \<subseteq> set (numeric_cols_of example_features)"
    and sub': "set (transformer_columns example_fitted_pipeline)
                 \<subseteq> set (numeric_cols_of example_features)"
    by (simp_all add: cols example_pipeline_def example_fitted_pipeline_def)
  have fit: "pipeline_fit example_sklearn (Entropy 0) example_pipeline example_features
               example_labels = Inr example_fitted_pipeline"
    by (simp add: example_pipeline_def example_fitted_pipeline_def evaluation example_tables
        example_sklearn_def)
  show ?thesis
    using object_columns_do_not_reach_the_pipeline
            [OF wf agree sub, of example_sklearn "Entropy 0" example_labels]
          object_columns_do_not_reach_the_pipeline
            [OF wf agree sub', of example_sklearn "Entropy 0" example_labels]
          wf agree fit cols
    by (simp add: example_pipeline_def example_features_def example_features_other_def)
qed

section \<open>Every probability lies between 0 and 1\<close>

lemma expit_unit: "unit_interval (expit z)" "unit_interval (1 - expit z)"
proof -
  have pos: "0 < 1 + exp (- z)" by (simp add: add_pos_pos)
  have "1 \<le> 1 + exp (- z)" by simp
  then have "1 / (1 + exp (- z)) \<le> 1"
    using pos by (simp only: divide_le_eq_1_pos)
  moreover have "0 \<le> 1 / (1 + exp (- z))"
    using pos by simp
  ultimately have "0 \<le> expit z \<and> expit z \<le> 1"
    unfolding expit_def by simp
  then show "unit_interval (expit z)" "unit_interval (1 - expit z)"
    by (simp_all add: unit_interval_def)
qed

lemma member_le_sum_list_real:
  fixes xs :: "real list"
  assumes "\<forall>x \<in> set xs. 0 \<le> x" and "x \<in> set xs"
  shows "x \<le> sum_list xs"
  using assms
proof (induction xs)
  case Nil
  then show ?case by simp
next
  case (Cons a xs)
  have "0 \<le> sum_list xs" using Cons.prems(1) by (simp add: sum_list_nonneg)
  then show ?case using Cons by auto
qed

lemma softmax_unit: "list_all unit_interval (softmax zs)"
proof -
  have "unit_interval (exp z / sum_list (map exp zs))" if "z \<in> set zs" for z
  proof -
    have "exp z \<le> sum_list (map exp zs)"
      using that by (intro member_le_sum_list_real) auto
    moreover have "0 < exp z" by simp
    ultimately have le: "exp z \<le> sum_list (map exp zs)" and pos: "0 < sum_list (map exp zs)"
      by linarith+
    have "exp z / sum_list (map exp zs) \<le> 1"
      using le pos by (simp only: divide_le_eq_1_pos)
    moreover have "0 \<le> exp z / sum_list (map exp zs)"
      using pos by simp
    ultimately show ?thesis
      by (simp add: unit_interval_def)
  qed
  then show ?thesis
    by (simp add: softmax_def list_all_iff)
qed

lemma lr_predict_proba_unit: "list_all unit_interval (lr_predict_proba m x)"
  by (simp add: lr_predict_proba_def expit_unit softmax_unit)

lemma multi_output_predict_proba_unit: "probabilities (multi_output_predict_proba ms X)"
  by (simp add: probabilities_def multi_output_predict_proba_def list_all_iff
      lr_predict_proba_unit [unfolded list_all_iff])

lemma pipeline_predict_proba_unit:
  "pipeline_predict_proba L p X = Inr pr \<Longrightarrow> probabilities pr"
  by (auto simp add: pipeline_predict_proba_def and_then_Inr_iff
      multi_output_predict_proba_unit split: option.splits)

lemma second_column_unit:
  assumes "probabilities pr" and "second_column pr k = Inr a"
  shows "list_all unit_interval a"
proof -
  have k: "k < length pr" and rows: "\<forall>row \<in> set (pr ! k). 2 \<le> length row"
    and a: "a = map (\<lambda>row. row ! 1) (pr ! k)"
    using assms(2) by (auto simp add: second_column_def list_ex_iff split: if_splits)
  have "list_all (list_all unit_interval) (pr ! k)"
    using assms(1) k by (simp add: probabilities_def list_all_length)
  then have "unit_interval (row ! 1)" if "row \<in> set (pr ! k)" for row
    using that rows by (auto simp add: list_all_iff list_all_length)
  then show ?thesis by (simp add: a list_all_iff)
qed

lemma probability_effects:
  "predict_eval L u = Inr v \<Longrightarrow> \<exists>pr. probabilities pr \<and> v = u\<lparr>preds := Some pr\<rparr>"
  "predict_test L u = Inr v \<Longrightarrow> \<exists>pr. probabilities pr \<and> v = u\<lparr>test_probas := Some pr\<rparr>"
  by (fastforce simp add: predict_eval_def predict_test_def and_then_Inr_iff
      var_Inr_iff dest: pipeline_predict_proba_unit)+

lemma build_y_preds_effect:
  assumes "build_y_preds u = Inr v"
  shows "\<exists>pr a b t. preds u = Some pr \<and> second_column pr 0 = Inr a \<and>
           second_column pr 1 = Inr b \<and> y_preds v = Some t \<and>
           columns t = [(''h1n1_vaccine'', Num (map Some a)),
                        (''seasonal_vaccine'', Num (map Some b))] \<and>
           preds v = preds u \<and> test_probas v = test_probas u"
  using assms
  by (auto simp add: build_y_preds_def and_then_Inr_iff var_Inr_iff split: if_splits)

lemma probabilities_frame:
  assumes "c \<in> set (statements L)" and "c u = Inr v"
    and "c \<noteq> predict_eval L" and "c \<noteq> predict_test L" and "c \<noteq> build_y_preds"
  shows "preds v = preds u \<and> test_probas v = test_probas u \<and> y_preds v = y_preds u"
  using assms
  by (auto simp add: statements_unfold
      dest!: load_effects assert_effects split_effect submission_effects
        training_effects(1,2,3,4,5))

lemma probabilities_in_unit_interval_step:
  assumes "c \<in> set (statements L)" and "probabilities_in_unit_interval u" and "c u = Inr v"
  shows "probabilities_in_unit_interval v"
proof -
  consider "c = predict_eval L" | "c = predict_test L" | "c = build_y_preds"
    | "c \<noteq> predict_eval L" "c \<noteq> predict_test L" "c \<noteq> build_y_preds"
    by blast
  then show ?thesis
  proof cases
    case 1
    then show ?thesis
      using probability_effects(1) [of L u v] assms(2,3)
      by (auto simp add: probabilities_in_unit_interval_def)
  next
    case 2
    then show ?thesis
      using probability_effects(2) [of L u v] assms(2,3)
      by (auto simp add: probabilities_in_unit_interval_def)
  next
    case 3
    then obtain pr a b t where pr: "preds u = Some pr"
      and a: "second_column pr 0 = Inr a" and b: "second_column pr 1 = Inr b"
      and v: "y_preds v = Some t" "preds v = preds u" "test_probas v = test_probas u"
      and t: "columns t = [(''h1n1_vaccine'', Num (map Some a)),
                           (''seasonal_vaccine'', Num (map Some b))]"
      using build_y_preds_effect [of u v] assms(3) by blast
    have "probabilities pr"
      using assms(2) pr by (simp add: probabilities_in_unit_interval_def)
    then have "list_all unit_interval a" "list_all unit_interval b"
      using second_column_unit a b by blast+
    then show ?thesis
      using assms(2) v t
      by (simp add: probabilities_in_unit_interval_def list_all_iff)
  next
    case 4
    then show ?thesis
      using probabilities_frame [OF assms(1,3)] assms(2)
      by (simp add: probabilities_in_unit_interval_def)
  qed
qed

lemma setitem_map_of:
  assumes "setitem d n vs = Inr d'"
  shows "map_of (columns d') n = Some (Num (map Some vs))"
    and "k \<noteq> n \<Longrightarrow> map_of (columns d') k = map_of (columns d) k"
proof -
  show "map_of (columns d') n = Some (Num (map Some vs))"
  proof (cases "n \<in> set (column_names d)")
    case True
    then have "n \<in> fst ` set (columns d)" by (simp add: column_names_def)
    then show ?thesis
      using setitem_present [OF True assms] by (simp add: replace_map_of_same)
  next
    case False
    then have "map_of (columns d) n = None"
      by (simp add: column_names_def map_of_eq_None_iff)
    then show ?thesis
      using assms False by (auto simp add: setitem_def map_add_def split: if_splits)
  qed
  show "map_of (columns d') k = map_of (columns d) k" if "k \<noteq> n"
  proof (cases "n \<in> set (column_names d)")
    case True
    then show ?thesis
      using setitem_present [OF True assms] that by (simp add: replace_map_of_other)
  next
    case False
    then show ?thesis
      using assms that
      by (auto simp add: setitem_def map_add_def split: if_splits option.splits)
  qed
qed

text \<open>
  Claim C2. In every state of the run, every entry of the evaluation probabilities
  \<^verbatim>\<open>preds\<close> and of the test probabilities \<^verbatim>\<open>test_probas\<close>, where assigned, lies in the
  closed interval from 0 to 1, and so does every value of the two columns of
  \<^verbatim>\<open>y_preds\<close>. When the run reaches its end, the columns \<^verbatim>\<open>h1n1_vaccine\<close> and
  \<^verbatim>\<open>seasonal_vaccine\<close> of the written frame hold values of that interval only. This
  holds whatever coefficients the minimisation returns, since \<^verbatim>\<open>predict_proba\<close> passes
  them through the sigmoid or the softmax.
\<close>

theorem probabilities_lie_in_unit_interval:
  assumes "u \<in> set (states (statements L) (fresh_kernel fs g))"
  shows "probabilities_in_unit_interval u \<and>
         (snd (run_all L fs g) = None \<longrightarrow>
            (\<exists>d a b. files (fst (run_all L fs g)) OUTPUT_DATA_PATH = Some d \<and>
               map_of (columns d) ''h1n1_vaccine'' = Some (Num (map Some a)) \<and>
               map_of (columns d) ''seasonal_vaccine'' = Some (Num (map Some b)) \<and>
               list_all unit_interval a \<and> list_all unit_interval b))"
proof -
  let ?s0 = "fresh_kernel fs g"
  have start: "probabilities_in_unit_interval ?s0"
    by (simp add: probabilities_in_unit_interval_def fresh_kernel_def)
  have inv: "probabilities_in_unit_interval w"
    if "w \<in> set (states (statements L) ?s0)" for w
    using states_invariant [OF that, of probabilities_in_unit_interval] start
      probabilities_in_unit_interval_step by blast
  have "\<exists>d a b. files s OUTPUT_DATA_PATH = Some d \<and>
          map_of (columns d) ''h1n1_vaccine'' = Some (Num (map Some a)) \<and>
          map_of (columns d) ''seasonal_vaccine'' = Some (Num (map Some b)) \<and>
          list_all unit_interval a \<and> list_all unit_interval b"
    if run: "run_all L fs g = (s, None)" for s
  proof -
    obtain w where pre: "exec (training_part L @ test_part L) ?s0 = (w, None)"
      and post: "exec (submission_cell @ [write_submission]) w = (s, None)"
      using run by (auto simp add: run_all_None)
    obtain d0 pr a b d1 d2 where pr: "test_probas w = Some pr"
      and a: "second_column pr 0 = Inr a" and b: "second_column pr 1 = Inr b"
      and set1: "setitem d0 ''h1n1_vaccine'' a = Inr d1"
      and set2: "setitem d1 ''seasonal_vaccine'' b = Inr d2"
      and s: "s = w\<lparr>submission_df := Some d2, files := to_csv (files w) OUTPUT_DATA_PATH d2\<rparr>"
      using submission_cell_and_write [OF post] by blast
    have "test_probas s = Some pr" using s pr by simp
    moreover have "s \<in> set (states (statements L) ?s0)"
      using exec_in_states [of "statements L" ?s0] run by (simp add: run_all_def)
    ultimately have "probabilities pr"
      using inv [of s] by (simp add: probabilities_in_unit_interval_def)
    then have "list_all unit_interval a" "list_all unit_interval b"
      using second_column_unit a b by blast+
    moreover have "map_of (columns d2) ''seasonal_vaccine'' = Some (Num (map Some b))"
      using setitem_map_of(1) [OF set2] .
    moreover have "map_of (columns d2) ''h1n1_vaccine'' = Some (Num (map Some a))"
      using setitem_map_of(2) [OF set2, of "''h1n1_vaccine''"] setitem_map_of(1) [OF set1]
      by simp
    moreover have "files s OUTPUT_DATA_PATH = Some d2"
      using s by (simp add: to_csv_def)
    ultimately show ?thesis by blast
  qed
  then have "snd (run_all L fs g) = None \<longrightarrow>
            (\<exists>d a b. files (fst (run_all L fs g)) OUTPUT_DATA_PATH = Some d \<and>
               map_of (columns d) ''h1n1_vaccine'' = Some (Num (map Some a)) \<and>
               map_of (columns d) ''seasonal_vaccine'' = Some (Num (map Some b)) \<and>
               list_all unit_interval a \<and> list_all unit_interval b)"
    by (cases "run_all L fs g") simp
  then show ?thesis using inv [OF assms] by simp
qed

theorem probabilities_lie_in_unit_interval_witness:
  "fst (run_all example_sklearn example_files (Entropy 0))
     \<in> set (states (statements example_sklearn) (fresh_kernel example_files (Entropy 0))) \<and>
   snd (run_all example_sklearn example_files (Entropy 0)) = None \<and>
   probabilities [[[1 - expit (- 1), expit (- 1)], [1 - expit 1, expit 1]],
                  [[1 - expit (- 1), expit (- 1)], [1 - expit 1, expit 1]]] \<and>
   probabilities [[[1 - expit 0, expit 0], [1 - expit 1, expit 1]],
                  [[1 - expit 0, expit 0], [1 - expit 1, expit 1]]] \<and>
   (\<exists>d a b. files (fst (run_all example_sklearn example_files (Entropy 0))) OUTPUT_DATA_PATH
               = Some d \<and>
      map_of (columns d) ''h1n1_vaccine'' = Some (Num (map Some a)) \<and>
      map_of (columns d) ''seasonal_vaccine'' = Some (Num (map Some b)) \<and>
      list_all unit_interval a \<and> list_all unit_interval b)"
proof -
  let ?s = "fst (run_all example_sklearn example_files (Entropy 0))"
  have mem: "?s \<in> set (states (statements example_sklearn)
                          (fresh_kernel example_files (Entropy 0)))"
    using exec_in_states [of "statements example_sklearn" "fresh_kernel example_files (Entropy 0)"]
    by (simp add: run_all_def)
  show ?thesis
    using probabilities_lie_in_unit_interval [OF mem] mem
      example_run(1,3,4) [of "Entropy 0"]
    by (simp add: probabilities_in_unit_interval_def)
qed

section \<open>Missing values get the scaled training median\<close>











lemma imputer_transform_fill:
  "imputer_transform (Some fill) (map (map_option f) ys) =
     Some (map (\<lambda>y. case y of None \<Rightarrow> fill | Some v \<Rightarrow> f v) ys)"
  by (simp add: imputer_transform_def option.case_eq_if option.map_sel)














section \<open>ROC-AUC of a perfect and of a random predictor\<close>

lemma auc_Cons2: "auc (a # b # ps) = trapezoid a b + auc (b # ps)"
  by (cases a; cases b) (simp add: trapezoid_def)

lemma trapezoid_collinear:
  assumes "fst b = fst a + k * dx" "snd b = snd a + k * dy"
    and "k \<noteq> 0 \<longrightarrow> fst c = fst b + dx \<and> snd c = snd b + dy"
  shows "trapezoid a c = trapezoid a b + trapezoid b c"
proof (cases "k = 0")
  case True
  then have "a = b" using assms(1,2) by (simp add: prod_eq_iff)
  then show ?thesis by (simp add: trapezoid_def)
next
  case False
  then show ?thesis
    using assms by (simp add: trapezoid_def field_simps)
qed

lemma rate_step:
  "fst (rate n m q) = fst (rate n m p) + (real (fst q) - real (fst p)) / real n"
  "snd (rate n m q) = snd (rate n m p) + (real (snd q) - real (snd p)) / real m"
  by (simp_all add: rate_def diff_divide_distrib)

lemma auc_drop_after:
  assumes "fst (rate n m before) = fst (rate n m a) + k * dx"
    and "snd (rate n m before) = snd (rate n m a) + k * dy"
    and "k \<noteq> 0 \<longrightarrow> fst (rate n m p) = fst (rate n m before) + dx \<and>
                   snd (rate n m p) = snd (rate n m before) + dy"
  shows "auc (rate n m a # map (rate n m) (drop_after before (p # ps))) =
         trapezoid (rate n m a) (rate n m before) +
         auc (rate n m before # map (rate n m) (p # ps))"
  using assms
proof (induction ps arbitrary: a before p k dx dy)
  case Nil
  show ?case
    using trapezoid_collinear [OF Nil.prems] by (simp add: auc_Cons2)
next
  case (Cons after ps)
  let ?r = "rate n m"
  have split: "trapezoid (?r a) (?r p) = trapezoid (?r a) (?r before) + trapezoid (?r before) (?r p)"
    using trapezoid_collinear [OF Cons.prems] .
  show ?case
  proof (cases "fst before + fst after = 2 * fst p \<and> snd before + snd after = 2 * snd p")
    case True
    then have mid: "real (fst after) - real (fst p) = real (fst p) - real (fst before)"
      "real (snd after) - real (snd p) = real (snd p) - real (snd before)"
      by linarith+
    define ex where "ex = (real (fst p) - real (fst before)) / real n"
    define ey where "ey = (real (snd p) - real (snd before)) / real m"
    have step: "fst (?r p) = fst (?r before) + ex" "snd (?r p) = snd (?r before) + ey"
      "fst (?r after) = fst (?r p) + ex" "snd (?r after) = snd (?r p) + ey"
      using rate_step [of n m p before] rate_step [of n m after p] mid
      by (simp_all add: ex_def ey_def)
    have same: "k \<noteq> 0 \<Longrightarrow> dx = ex \<and> dy = ey"
      using Cons.prems(3) step(1,2) by simp
    have one: "fst (?r p) = fst (?r a) + (k + 1) * ex" "snd (?r p) = snd (?r a) + (k + 1) * ey"
      using Cons.prems(1,2) step(1,2) same by (cases "k = 0"; simp add: algebra_simps)+
    have dropped: "drop_after before (p # after # ps) = drop_after p (after # ps)"
      using True by simp
    have "auc (?r a # map ?r (drop_after p (after # ps))) =
          trapezoid (?r a) (?r p) + auc (?r p # map ?r (after # ps))"
      by (rule Cons.IH [OF one]) (simp add: step)
    then show ?thesis
      unfolding dropped using split by (simp add: auc_Cons2)
  next
    case False
    have kept: "drop_after before (p # after # ps) = p # drop_after p (after # ps)"
      using False by auto
    have "auc (?r p # map ?r (drop_after p (after # ps))) =
          trapezoid (?r p) (?r p) + auc (?r p # map ?r (after # ps))"
      by (rule Cons.IH [where k = 0 and dx = 0 and dy = 0]) simp_all
    moreover have "trapezoid (?r p) (?r p) = 0"
      by (simp add: trapezoid_def)
    ultimately show ?thesis
      unfolding kept using split by (simp add: auc_Cons2)
  qed
qed

lemma auc_drop_intermediate:
  "auc (origin # map (rate n m) (drop_intermediate ps)) = auc (origin # map (rate n m) ps)"
proof (cases ps)
  case Nil
  then show ?thesis by simp
next
  case (Cons p qs)
  show ?thesis
  proof (cases qs)
    case Nil
    then show ?thesis using Cons by simp
  next
    case (Cons q rs)
    have "auc (rate n m p # map (rate n m) (drop_after p (q # rs))) =
          trapezoid (rate n m p) (rate n m p) + auc (rate n m p # map (rate n m) (q # rs))"
      by (rule auc_drop_after [where k = 0 and dx = 0 and dy = 0]) simp_all
    then show ?thesis
      using Cons \<open>ps = p # qs\<close> by (simp add: auc_Cons2 trapezoid_def)
  qed
qed

lemma at_least_split: "at_least t xs = number_above t xs + number_equal t xs"
  unfolding at_least_def number_above_def number_equal_def
  by (induction xs) auto

lemma at_least_next:
  assumes "u < t" and "\<forall>s \<in> set xs. s \<le> u \<or> t \<le> s"
  shows "number_above u xs = at_least t xs"
  using assms unfolding at_least_def number_above_def
  by (induction xs) auto

lemma trapezoid_step:
  fixes a e A E N P :: real
  shows "((A + E) / N - A / N) * (a / P + (a + e) / P) / 2 = E * (2 * a + e) / (2 * N * P)"
proof -
  have "(A + E) / N - A / N = E / N"
    by (simp add: add_divide_distrib)
  moreover have "a / P + (a + e) / P = (2 * a + e) / P"
    by (simp add: add_divide_distrib)
  ultimately show ?thesis
    by simp
qed

lemma auc_thresholds:
  fixes pos neg :: "real list"
  defines "pt \<equiv> \<lambda>t. (real (at_least t neg) / real (length neg),
                       real (at_least t pos) / real (length pos))"
  assumes "sorted_wrt (>) (t # ts)"
    and "\<forall>s \<in> set pos \<union> set neg. s \<in> set (t # ts) \<or> t < s"
  shows "auc ((real (number_above t neg) / real (length neg), real (number_above t pos) / real (length pos))
              # map pt (t # ts)) =
         (\<Sum>u\<leftarrow>t # ts. real (number_equal u neg) * (2 * real (number_above u pos) + real (number_equal u pos)))
           / (2 * real (length neg) * real (length pos))"
  using assms(2,3)
proof (induction ts arbitrary: t)
  case Nil
  show ?case
    using trapezoid_step [of "real (number_above t neg)" "real (number_equal t neg)" "real (length neg)"
        "real (number_above t pos)" "real (length pos)" "real (number_equal t pos)"]
    by (simp add: pt_def at_least_split)
next
  case (Cons u ts)
  have ut: "u < t" using Cons.prems(1) by simp
  have gap: "\<forall>s \<in> set pos \<union> set neg. s \<le> u \<or> t \<le> s"
  proof
    fix s assume "s \<in> set pos \<union> set neg"
    then have "s \<in> set (t # u # ts) \<or> t < s" using Cons.prems(2) by blast
    moreover have "\<forall>x \<in> set ts. x < u" using Cons.prems(1) by auto
    ultimately show "s \<le> u \<or> t \<le> s" by auto
  qed
  have next_neg: "number_above u neg = at_least t neg" and next_pos: "number_above u pos = at_least t pos"
    using at_least_next [OF ut] gap by auto
  have sorted: "sorted_wrt (>) (u # ts)" using Cons.prems(1) by simp
  have cover: "\<forall>s \<in> set pos \<union> set neg. s \<in> set (u # ts) \<or> u < s"
    using Cons.prems(2) ut by auto
  have IH: "auc (pt t # map pt (u # ts)) =
         (\<Sum>v\<leftarrow>u # ts. real (number_equal v neg) * (2 * real (number_above v pos) + real (number_equal v pos)))
           / (2 * real (length neg) * real (length pos))"
    using Cons.IH [OF sorted cover] by (simp add: next_neg next_pos pt_def)
  have "auc ((real (number_above t neg) / real (length neg), real (number_above t pos) / real (length pos))
              # map pt (t # u # ts)) =
        (fst (pt t) - real (number_above t neg) / real (length neg)) *
        (real (number_above t pos) / real (length pos) + snd (pt t)) / 2 + auc (pt t # map pt (u # ts))"
    by (cases "pt t") simp
  also have "(fst (pt t) - real (number_above t neg) / real (length neg)) *
        (real (number_above t pos) / real (length pos) + snd (pt t)) / 2 =
        real (number_equal t neg) * (2 * real (number_above t pos) + real (number_equal t pos))
          / (2 * real (length neg) * real (length pos))"
    using trapezoid_step [of "real (number_above t neg)" "real (number_equal t neg)" "real (length neg)"
        "real (number_above t pos)" "real (length pos)" "real (number_equal t pos)"]
    by (simp add: pt_def at_least_split)
  finally show ?case
    using IH by (simp add: add_divide_distrib)
qed

lemma sum_list_indicator_absent:
  fixes g :: "real \<Rightarrow> real"
  shows "x \<notin> set ts \<Longrightarrow> (\<Sum>u\<leftarrow>ts. if x = u then g u else 0) = 0"
  by (induction ts) auto

lemma sum_list_indicator:
  fixes g :: "real \<Rightarrow> real"
  assumes "distinct ts" and "x \<in> set ts"
  shows "(\<Sum>u\<leftarrow>ts. if x = u then g u else 0) = g x"
  using assms by (induction ts) (auto simp add: sum_list_indicator_absent)

lemma regroup_by_threshold:
  fixes g :: "real \<Rightarrow> real"
  assumes "distinct ts" and "set neg \<subseteq> set ts"
  shows "(\<Sum>u\<leftarrow>ts. real (number_equal u neg) * g u) = (\<Sum>n\<leftarrow>neg. g n)"
  using assms(2)
proof (induction neg)
  case Nil
  then show ?case by (simp add: number_equal_def)
next
  case (Cons x neg)
  have "(\<Sum>u\<leftarrow>ts. real (number_equal u (x # neg)) * g u) =
        (\<Sum>u\<leftarrow>ts. (if x = u then g u else 0) + real (number_equal u neg) * g u)"
    by (intro arg_cong [where f = sum_list] map_cong refl)
      (simp add: number_equal_def algebra_simps)
  also have "\<dots> = (\<Sum>u\<leftarrow>ts. if x = u then g u else 0) +
                   (\<Sum>u\<leftarrow>ts. real (number_equal u neg) * g u)"
    by (simp add: sum_list_addf)
  also have "\<dots> = g x + (\<Sum>n\<leftarrow>neg. g n)"
    using Cons sum_list_indicator [OF assms(1), of x g] by simp
  finally show ?case by simp
qed

lemma pair_score_row:
  "(\<Sum>p\<leftarrow>pos. if n < p then 1 else if n = p then 1 / 2 else (0::real)) =
   real (number_above n pos) + real (number_equal n pos) / 2"
  by (induction pos) (auto simp add: number_above_def number_equal_def)

lemma thresholds_sorted: "sorted_wrt (>) (thresholds xs)"
proof -
  have "sorted_wrt (<) (sort (remdups xs))"
    by (simp add: strict_sorted_iff)
  then show ?thesis
    by (simp add: thresholds_def sorted_wrt_rev)
qed

lemma thresholds_set: "set (thresholds xs) = set xs"
  by (simp add: thresholds_def)

lemma thresholds_distinct: "distinct (thresholds xs)"
  by (simp add: thresholds_def)

lemma positives_subset: "set (positives ys ss) \<subseteq> set ss"
  by (auto simp add: positives_def dest: set_zip_rightD)

lemma negatives_subset: "set (negatives ys ss) \<subseteq> set ss"
  by (auto simp add: negatives_def dest: set_zip_rightD)

lemma number_above_head:
  assumes "sorted_wrt (>) (t # ts)" and "set xs \<subseteq> set (t # ts)"
  shows "number_above t xs = 0"
proof -
  have "s \<le> t" if "s \<in> set xs" for s
  proof -
    have "s = t \<or> s \<in> set ts" using that assms(2) by auto
    then show ?thesis using assms(1) by auto
  qed
  then show ?thesis
    by (simp add: number_above_def filter_empty_conv not_less)
qed

lemma roc_curve_area:
  "auc (roc_curve y_true y_score) =
   auc ((0, 0) #
        map (\<lambda>t. (real (at_least t (negatives y_true y_score)) /
                     real (length (negatives y_true y_score)),
                   real (at_least t (positives y_true y_score)) /
                     real (length (positives y_true y_score))))
          (thresholds y_score))"
  by (simp add: roc_curve_def auc_drop_intermediate binary_clf_curve_def rate_def comp_def)

lemma auc_is_pair_score:
  "auc (roc_curve y_true y_score) =
   pair_score (positives y_true y_score) (negatives y_true y_score) /
     (real (length (positives y_true y_score)) * real (length (negatives y_true y_score)))"
proof -
  let ?pos = "positives y_true y_score" and ?neg = "negatives y_true y_score"
  let ?g = "\<lambda>u. 2 * real (number_above u ?pos) + real (number_equal u ?pos)"
  have twice: "(\<Sum>n\<leftarrow>?neg. ?g n) = 2 * pair_score ?pos ?neg"
  proof -
    have "pair_score ?pos ?neg = (\<Sum>n\<leftarrow>?neg. (1 / 2) * ?g n)"
      unfolding pair_score_def pair_score_row
      by (intro arg_cong [where f = sum_list] map_cong refl) (simp add: add_divide_distrib)
    also have "\<dots> = (1 / 2) * (\<Sum>n\<leftarrow>?neg. ?g n)"
      by (rule sum_list_const_mult)
    finally show ?thesis by simp
  qed
  show ?thesis
  proof (cases "thresholds y_score")
    case Nil
    then have "y_score = []"
      using thresholds_set [of y_score] by simp
    then show ?thesis
      by (simp add: roc_curve_area thresholds_def positives_def negatives_def pair_score_def)
  next
    case (Cons t ts)
    have sorted: "sorted_wrt (>) (t # ts)"
      using thresholds_sorted [of y_score] Cons by simp
    have sub: "set ?pos \<subseteq> set (t # ts)" "set ?neg \<subseteq> set (t # ts)"
      using positives_subset [of y_true y_score] negatives_subset [of y_true y_score]
        thresholds_set [of y_score] Cons by auto
    have cover: "\<forall>s \<in> set ?pos \<union> set ?neg. s \<in> set (t # ts) \<or> t < s"
      using sub by blast
    have start: "number_above t ?pos = 0" "number_above t ?neg = 0"
      using number_above_head [OF sorted] sub by blast+
    have "auc (roc_curve y_true y_score) =
          (\<Sum>u\<leftarrow>t # ts. real (number_equal u ?neg) * ?g u) /
            (2 * real (length ?neg) * real (length ?pos))"
      using auc_thresholds [OF sorted cover] start
      by (simp add: roc_curve_area Cons)
    also have "(\<Sum>u\<leftarrow>t # ts. real (number_equal u ?neg) * ?g u) = (\<Sum>n\<leftarrow>?neg. ?g n)"
      using regroup_by_threshold [of "t # ts" ?neg ?g] thresholds_distinct [of y_score] sub(2) Cons
      by simp
    finally show ?thesis
      by (simp add: twice mult.commute)
  qed
qed

lemma positives_nth:
  assumes "p \<in> set (positives ys ss)"
  shows "\<exists>i < length ys. i < length ss \<and> ys ! i \<and> ss ! i = p"
  using assms by (auto simp add: positives_def in_set_zip)

lemma negatives_nth:
  assumes "n \<in> set (negatives ys ss)"
  shows "\<exists>j < length ys. j < length ss \<and> \<not> ys ! j \<and> ss ! j = n"
  using assms by (auto simp add: negatives_def in_set_zip)

lemma positives_nonempty:
  assumes "length ss = length ys" and "True \<in> set ys"
  shows "positives ys ss \<noteq> []"
proof -
  obtain i where i: "i < length ys" "ys ! i" using assms(2) by (auto simp add: in_set_conv_nth)
  then have "(ys ! i, ss ! i) \<in> set (zip ys ss)"
    using assms(1) by (auto simp add: in_set_zip)
  then have "ss ! i \<in> set (positives ys ss)"
    using i by (force simp add: positives_def)
  then show ?thesis by auto
qed

lemma negatives_nonempty:
  assumes "length ss = length ys" and "False \<in> set ys"
  shows "negatives ys ss \<noteq> []"
proof -
  obtain i where i: "i < length ys" "\<not> ys ! i" using assms(2) by (auto simp add: in_set_conv_nth)
  then have "(ys ! i, ss ! i) \<in> set (zip ys ss)"
    using assms(1) by (auto simp add: in_set_zip)
  then have "ss ! i \<in> set (negatives ys ss)"
    using i by (force simp add: negatives_def)
  then show ?thesis by auto
qed

lemma pair_score_perfect:
  assumes "\<forall>n \<in> set neg. \<forall>p \<in> set pos. n < p"
  shows "pair_score pos neg = real (length pos) * real (length neg)"
proof -
  have "pair_score pos neg = (\<Sum>n\<leftarrow>neg. \<Sum>p\<leftarrow>pos. 1)"
    unfolding pair_score_def
    using assms by (intro arg_cong [where f = sum_list] map_cong refl) simp
  then show ?thesis
    by (simp add: sum_list_triv)
qed

lemma perfect_ranking:
  assumes "length y_score = length y_true" and "True \<in> set y_true" and "False \<in> set y_true"
    and "\<forall>i < length y_true. \<forall>j < length y_true.
           y_true ! i \<and> \<not> y_true ! j \<longrightarrow> y_score ! j < y_score ! i"
  shows "auc (roc_curve y_true y_score) = 1"
proof -
  let ?pos = "positives y_true y_score" and ?neg = "negatives y_true y_score"
  have "\<forall>n \<in> set ?neg. \<forall>p \<in> set ?pos. n < p"
    using assms(4) positives_nth [of _ y_true y_score] negatives_nth [of _ y_true y_score]
    by blast
  then have "pair_score ?pos ?neg = real (length ?pos) * real (length ?neg)"
    by (rule pair_score_perfect)
  moreover have "?pos \<noteq> []" "?neg \<noteq> []"
    using positives_nonempty negatives_nonempty assms(1-3) by blast+
  ultimately show ?thesis
    by (simp add: auc_is_pair_score)
qed

lemma positives_map: "positives ys (map f ss) = map f (positives ys ss)"
  by (induction ys ss rule: list_induct2') (simp_all add: positives_def)

lemma negatives_map: "negatives ys (map f ss) = map f (negatives ys ss)"
  by (induction ys ss rule: list_induct2') (simp_all add: negatives_def)

lemma pair_score_reflected:
  "pair_score (map (\<lambda>s. 1 - s) pos) (map (\<lambda>s. 1 - s) neg) + pair_score pos neg =
   real (length pos) * real (length neg)"
proof -
  let ?a = "\<lambda>n p. if 1 - n < 1 - p then 1 else if 1 - n = 1 - p then 1 / 2 else (0::real)"
  let ?b = "\<lambda>n p. if n < p then 1 else if n = p then 1 / 2 else (0::real)"
  have "pair_score (map (\<lambda>s. 1 - s) pos) (map (\<lambda>s. 1 - s) neg) + pair_score pos neg =
        (\<Sum>n\<leftarrow>neg. \<Sum>p\<leftarrow>pos. ?a n p) + (\<Sum>n\<leftarrow>neg. \<Sum>p\<leftarrow>pos. ?b n p)"
    by (simp add: pair_score_def comp_def)
  also have "\<dots> = (\<Sum>n\<leftarrow>neg. (\<Sum>p\<leftarrow>pos. ?a n p) + (\<Sum>p\<leftarrow>pos. ?b n p))"
    by (simp add: sum_list_addf)
  also have "\<dots> = (\<Sum>n\<leftarrow>neg. \<Sum>p\<leftarrow>pos. ?a n p + ?b n p)"
    by (simp add: sum_list_addf)
  also have "\<dots> = (\<Sum>n\<leftarrow>neg. \<Sum>p\<leftarrow>pos. 1)"
    by (intro arg_cong [where f = sum_list] map_cong refl) auto
  finally show ?thesis
    by (simp add: sum_list_triv)
qed

lemma reflected_scores:
  assumes "length y_score = length y_true" and "True \<in> set y_true" and "False \<in> set y_true"
  shows "auc (roc_curve y_true (map (\<lambda>s. 1 - s) y_score)) = 1 - auc (roc_curve y_true y_score)"
proof -
  let ?pos = "positives y_true y_score" and ?neg = "negatives y_true y_score"
  have ne: "real (length ?pos) * real (length ?neg) \<noteq> 0"
    using positives_nonempty negatives_nonempty assms by simp
  have "pair_score (map (\<lambda>s. 1 - s) ?pos) (map (\<lambda>s. 1 - s) ?neg) =
        real (length ?pos) * real (length ?neg) - pair_score ?pos ?neg"
    using pair_score_reflected [of ?pos ?neg] by simp
  then show ?thesis
    using ne by (simp add: auc_is_pair_score positives_map negatives_map diff_divide_distrib)
qed

lemma mean_under_reflection:
  fixes A :: "'a \<Rightarrow> real"
  assumes "distinct xs" and "xs \<noteq> []"
    and "\<And>x. x \<in> set xs \<Longrightarrow> r x \<in> set xs"
    and "\<And>x. x \<in> set xs \<Longrightarrow> r (r x) = x"
    and "\<And>x. x \<in> set xs \<Longrightarrow> A (r x) = 1 - A x"
  shows "sum_list (map A xs) / real (length xs) = 1 / 2"
proof -
  have "sum A (set xs) = sum (\<lambda>x. A (r x)) (set xs)"
    by (rule sum.reindex_bij_witness [of _ r r]) (use assms(3,4) in auto)
  also have "\<dots> = sum (\<lambda>x. 1 - A x) (set xs)"
    using assms(5) by (intro sum.cong) auto
  also have "\<dots> = real (card (set xs)) - sum A (set xs)"
    by (simp add: sum_subtractf)
  finally have "2 * sum A (set xs) = real (card (set xs))" by simp
  moreover have "sum_list (map A xs) = sum A (set xs)"
    using assms(1) by (simp add: sum_list_distinct_conv_sum_set)
  moreover have "card (set xs) = length xs"
    using assms(1) by (simp add: distinct_card)
  moreover have "0 < length xs" using assms(2) by simp
  ultimately show ?thesis
    by (simp add: field_simps)
qed

lemma expected_roc_auc_half:
  assumes "True \<in> set y_true" and "False \<in> set y_true"
    and "distinct grid" and "grid \<noteq> []" and "\<forall>s \<in> set grid. 1 - s \<in> set grid"
  shows "expected_roc_auc y_true grid = 1 / 2"
proof -
  let ?draws = "List.n_lists (length y_true) grid"
  have "distinct ?draws" using assms(3) by (rule distinct_n_lists)
  moreover have "?draws \<noteq> []"
    using assms(4) length_n_lists [of "length y_true" grid] by (metis length_0_conv power_eq_0_iff length_greater_0_conv less_numeral_extra(3))
  moreover have "map (\<lambda>s. 1 - s) ss \<in> set ?draws" if "ss \<in> set ?draws" for ss
    using that assms(5) by (auto simp add: set_n_lists)
  moreover have "map (\<lambda>s. 1 - s) (map (\<lambda>s. 1 - s) ss) = ss" for ss :: "real list"
    by (simp add: comp_def)
  moreover have "auc (roc_curve y_true (map (\<lambda>s. 1 - s) ss)) = 1 - auc (roc_curve y_true ss)"
    if "ss \<in> set ?draws" for ss
    using that reflected_scores [OF _ assms(1,2)] by (simp add: set_n_lists)
  ultimately show ?thesis
    unfolding expected_roc_auc_def Let_def
    by (intro mean_under_reflection [where r = "map (\<lambda>s. 1 - s)"]) auto
qed

lemma binary_scores_Inr:
  assumes "length ys = length ss"
    and "\<forall>y \<in> set ys. True \<in> set y \<and> False \<in> set y"
    and "\<forall>(y, s) \<in> set (zip ys ss). length s = length y"
  shows "binary_scores ys ss = Inr (map (\<lambda>(y, s). auc (roc_curve y s)) (zip ys ss))"
  using assms
  by (induction ys ss rule: list_induct2) (simp_all add: roc_auc_score_def and_then_def)

lemma sum_list_one_minus:
  fixes f :: "'a \<Rightarrow> real"
  shows "(\<Sum>x\<leftarrow>xs. 1 - f x) = real (length xs) - (\<Sum>x\<leftarrow>xs. f x)"
  by (induction xs) simp_all

lemma macro_reflected:
  assumes "length ss = length ys" and "ys \<noteq> []"
    and "\<forall>y \<in> set ys. True \<in> set y \<and> False \<in> set y"
    and "\<forall>(y, s) \<in> set (zip ys ss). length s = length y"
  shows "\<exists>a. roc_auc_score_macro ys ss = Inr a \<and>
             roc_auc_score_macro ys (map (map (\<lambda>s. 1 - s)) ss) = Inr (1 - a)"
proof -
  let ?A = "\<lambda>(y, s). auc (roc_curve y s)"
  let ?r = "map (\<lambda>s::real. 1 - s)"
  have lens: "\<forall>(y, s) \<in> set (zip ys (map ?r ss)). length s = length y"
    using assms(4) by (auto simp add: zip_map2)
  have one: "binary_scores ys ss = Inr (map ?A (zip ys ss))"
    using binary_scores_Inr [OF assms(1) [symmetric] assms(3,4)] .
  have two: "binary_scores ys (map ?r ss) = Inr (map ?A (zip ys (map ?r ss)))"
    using binary_scores_Inr [OF _ assms(3) lens] assms(1) by simp
  have "map ?A (zip ys (map ?r ss)) = map (\<lambda>p. 1 - ?A p) (zip ys ss)"
    unfolding zip_map2 map_map
  proof (intro map_cong refl)
    fix p assume p: "p \<in> set (zip ys ss)"
    obtain y s where ys: "p = (y, s)" by (cases p)
    have "length s = length y" "True \<in> set y" "False \<in> set y"
      using p ys assms(3,4) by (auto dest: set_zip_leftD)
    then show "(?A \<circ> (\<lambda>(x, y). (x, ?r y))) p = 1 - ?A p"
      using reflected_scores [of s y] by (simp add: ys)
  qed
  then have "sum_list (map ?A (zip ys (map ?r ss))) =
             real (length ys) - sum_list (map ?A (zip ys ss))"
    using assms(1) by (simp add: sum_list_one_minus)
  moreover have "0 < length ys" "ss \<noteq> []" using assms(1,2) by auto
  ultimately show ?thesis
    using assms(1,2)
    by (simp add: roc_auc_score_macro_def one two and_then_def diff_divide_distrib)
qed

lemma n_lists_nonempty: "xs \<noteq> [] \<Longrightarrow> List.n_lists n xs \<noteq> []"
  using length_n_lists [of n xs] by (metis length_0_conv power_not_zero)

lemma macro_average_of_perfect_scores:
  assumes "length ys = length ss" and "ys \<noteq> []"
    and "\<forall>(y, s) \<in> set (zip ys ss).
           length s = length y \<and> True \<in> set y \<and> False \<in> set y \<and>
           (\<forall>i < length y. \<forall>j < length y. y ! i \<and> \<not> y ! j \<longrightarrow> s ! j < s ! i)"
  shows "roc_auc_score_macro ys ss = Inr 1"
proof -
  have "binary_scores ys ss = Inr (map (\<lambda>p. 1) (zip ys ss))"
    using assms(1,3)
  proof (induction ys ss rule: list_induct2)
    case Nil
    then show ?case by simp
  next
    case (Cons y ys s ss)
    have "auc (roc_curve y s) = 1"
      using Cons.prems perfect_ranking [of s y] by simp
    moreover have "length s = length y" "True \<in> set y" "False \<in> set y"
      using Cons.prems by simp_all
    ultimately show ?case
      using Cons by (simp add: roc_auc_score_def and_then_def)
  qed
  moreover have "zip ys ss \<noteq> []" using assms(1,2) by (cases ys; cases ss) simp_all
  ultimately show ?thesis
    using assms(1)
    by (simp add: roc_auc_score_macro_def and_then_def sum_list_triv)
qed

lemma expected_roc_auc_macro_half:
  assumes "ys \<noteq> []" and "\<forall>y \<in> set ys. length y = n \<and> True \<in> set y \<and> False \<in> set y"
    and "distinct grid" and "grid \<noteq> []" and "\<forall>s \<in> set grid. 1 - s \<in> set grid"
  shows "expected_roc_auc_macro ys n grid = 1 / 2"
proof -
  let ?draws = "List.n_lists (length ys) (List.n_lists n grid)"
  let ?r = "map (map (\<lambda>s::real. 1 - s))"
  let ?A = "\<lambda>ss. case roc_auc_score_macro ys ss of Inl e \<Rightarrow> 0 | Inr a \<Rightarrow> a"
  have "distinct ?draws" using assms(3) by (intro distinct_n_lists)
  moreover have "?draws \<noteq> []"
    using assms(4) by (intro n_lists_nonempty)
  moreover have "?r ss \<in> set ?draws" if "ss \<in> set ?draws" for ss
    using that assms(5) by (auto simp add: set_n_lists) blast
  moreover have "?r (?r ss) = ss" for ss
    by (simp add: comp_def)
  moreover have "?A (?r ss) = 1 - ?A ss" if "ss \<in> set ?draws" for ss
  proof -
    have len: "length ss = length ys" and cols: "\<forall>s \<in> set ss. length s = n"
      using that by (auto simp add: set_n_lists)
    have "length s = length y" if "(y, s) \<in> set (zip ys ss)" for y s
      using cols assms(2) set_zip_leftD [OF that] set_zip_rightD [OF that] by simp
    then have "\<forall>(y, s) \<in> set (zip ys ss). length s = length y"
      by blast
    then obtain a where "roc_auc_score_macro ys ss = Inr a"
      "roc_auc_score_macro ys (?r ss) = Inr (1 - a)"
      using macro_reflected [OF len assms(1)] assms(2) by blast
    then show ?thesis by simp
  qed
  ultimately show ?thesis
    unfolding expected_roc_auc_macro_def Let_def
    by (intro mean_under_reflection [where r = ?r]) auto
qed

text \<open>
  Claim C7. Take a label vector in which both classes are present. When the scores rank
  every positive row above every negative row, \<^verbatim>\<open>roc_auc_score\<close> returns exactly 1.
  Now let a predictor draw every score uniformly and independently from a finite list of
  distinct values that is symmetric about one half (such as 0, 1/2, 1), so that every
  score vector over the list is equally likely. Then \<^verbatim>\<open>roc_auc_score\<close> raises for no
  draw; the draw with every score \<open>s\<close> replaced by \<open>1 - s\<close> is as likely and scores 1
  minus the score of the draw; and the expected ROC-AUC, the mean over all draws, is
  exactly one half. A single draw scores whatever its ranking gives, so ``approximately
  0.5'' is read as this mean. The score is the area under the ROC curve by the
  trapezoidal rule, as scikit-learn computes it (\<open>auc_is_pair_score\<close> shows that it is
  the share of the pairs of a positive and a negative row that are ranked in the right
  order, a tie counting as a half). The two-frame score of cell 88 is the mean of the
  scores of the columns, and the same holds for it: \<open>macro_average_of_perfect_scores\<close>
  and \<open>expected_roc_auc_macro_half\<close>.
\<close>

theorem roc_auc_of_perfect_and_of_random_scores:
  assumes "True \<in> set y_true" and "False \<in> set y_true"
  shows "(length y_score = length y_true \<and>
          (\<forall>i < length y_true. \<forall>j < length y_true.
             y_true ! i \<and> \<not> y_true ! j \<longrightarrow> y_score ! j < y_score ! i) \<longrightarrow>
            roc_auc_score y_true y_score = Inr 1) \<and>
         (distinct grid \<and> grid \<noteq> [] \<and> (\<forall>s \<in> set grid. 1 - s \<in> set grid) \<longrightarrow>
            (\<forall>draw \<in> set (List.n_lists (length y_true) grid).
               roc_auc_score y_true draw = Inr (auc (roc_curve y_true draw)) \<and>
               roc_auc_score y_true (map (\<lambda>s. 1 - s) draw) =
                 Inr (1 - auc (roc_curve y_true draw))) \<and>
            expected_roc_auc y_true grid = 1 / 2)"
proof (intro conjI impI ballI)
  assume "length y_score = length y_true \<and>
          (\<forall>i < length y_true. \<forall>j < length y_true.
             y_true ! i \<and> \<not> y_true ! j \<longrightarrow> y_score ! j < y_score ! i)"
  then show "roc_auc_score y_true y_score = Inr 1"
    using perfect_ranking [of y_score y_true] assms by (simp add: roc_auc_score_def)
next
  assume grid: "distinct grid \<and> grid \<noteq> [] \<and> (\<forall>s \<in> set grid. 1 - s \<in> set grid)"
  then show "expected_roc_auc y_true grid = 1 / 2"
    using expected_roc_auc_half [OF assms] by blast
  fix draw assume "draw \<in> set (List.n_lists (length y_true) grid)"
  then have len: "length draw = length y_true"
    by (simp add: set_n_lists)
  then show "roc_auc_score y_true draw = Inr (auc (roc_curve y_true draw))"
    using assms by (simp add: roc_auc_score_def)
  show "roc_auc_score y_true (map (\<lambda>s. 1 - s) draw) = Inr (1 - auc (roc_curve y_true draw))"
    using assms len reflected_scores [OF len assms] by (simp add: roc_auc_score_def)
qed

theorem roc_auc_of_perfect_and_of_random_scores_witness:
  "True \<in> set [True, False, True] \<and> False \<in> set [True, False, True] \<and>
   roc_auc_score [True, False, True] [9 / 10, 1 / 5, 3 / 5] = Inr 1 \<and>
   distinct [0, 1 / 2, 1 :: real] \<and>
   length (List.n_lists (length [True, False, True]) [0, 1 / 2, 1 :: real]) = 27 \<and>
   roc_auc_score [True, False, True] [1 / 2, 1 / 2, 0] = Inr (1 / 4) \<and>
   roc_auc_score [True, False, True] [1 / 2, 1 / 2, 1] = Inr (3 / 4) \<and>
   expected_roc_auc [True, False, True] [0, 1 / 2, 1] = 1 / 2"
proof -
  have classes: "True \<in> set [True, False, True]" "False \<in> set [True, False, True]"
    by simp_all
  have draw: "[1 / 2, 1 / 2, 0] \<in> set (List.n_lists (length [True, False, True]) [0, 1 / 2, 1 :: real])"
    by (simp add: set_n_lists)
  have quarter: "auc (roc_curve [True, False, True] [1 / 2, 1 / 2, 0]) = 1 / 4"
    by (simp add: roc_curve_def binary_clf_curve_def rate_def thresholds_def positives_def
        negatives_def at_least_def)
  show ?thesis
    using roc_auc_of_perfect_and_of_random_scores
            [OF classes, of "[9 / 10, 1 / 5, 3 / 5]" "[0, 1 / 2, 1]"] draw quarter
    by (auto simp add: nth_Cons' length_n_lists)
qed

end
